theory Spec2Isabelle
  imports Complex_Main
begin

section \<open>Python values, exceptions and dates\<close>

text \<open>
  The guest registry is a Flask application (\<^verbatim>\<open>app.py\<close>). Its handlers are
  embedded as pure functions: a request body is a parsed JSON value, a raised exception
  is the left summand of a sum type, and the session and the flashed messages are
  passed explicitly. A text is the list of its characters, each a code point below 256
  (ASCII and Latin-1); among these the decimal digits are \<^verbatim>\<open>0\<close> to
  \<^verbatim>\<open>9\<close>.
\<close>

text \<open>
  An exception (a subclass of Python's \<^verbatim>\<open>Exception\<close>): its class name and the text
  that \<^verbatim>\<open>str(e)\<close> gives.
\<close>

datatype pyexn = PyExn (exn_class: string) (exn_str: string)

text \<open>
  A Python float as \<^verbatim>\<open>json.loads\<close> produces it: a finite value, an infinity
  (\<open>True\<close> for the positive one) or NaN.
\<close>

datatype pyfloat = Finite real | Infinity bool | NaN

text \<open>
  The value \<^verbatim>\<open>request.get_json()\<close> returns: a dict is an association list
  read with \<open>map_of\<close>.
\<close>

datatype json =
    JNull
  | JBool bool
  | JInt int
  | JFloat pyfloat
  | JStr string
  | JArr "json list"
  | JObj "(string \<times> json) list"

text \<open>Python's truth value of an object, as \<^verbatim>\<open>all([...])\<close> tests it.\<close>

fun truthy :: "json \<Rightarrow> bool" where
  "truthy JNull = False"
| "truthy (JBool b) = b"
| "truthy (JInt i) = (i \<noteq> 0)"
| "truthy (JFloat f) = (f \<noteq> Finite 0)"
| "truthy (JStr s) = (s \<noteq> [])"
| "truthy (JArr xs) = (xs \<noteq> [])"
| "truthy (JObj kvs) = (kvs \<noteq> [])"

text \<open>\<^verbatim>\<open>d.get(key, default)\<close> on a dict.\<close>

definition dict_get :: "(string \<times> json) list \<Rightarrow> string \<Rightarrow> json \<Rightarrow> json" where
  "dict_get d k dflt = (case map_of d k of None \<Rightarrow> dflt | Some v \<Rightarrow> v)"

text \<open>\<^verbatim>\<open>all(xs)\<close> over a list of objects.\<close>

definition py_all :: "json list \<Rightarrow> bool" where
  "py_all xs = list_all truthy xs"

text \<open>A calendar date: the part of a \<^verbatim>\<open>datetime\<close> the program uses.\<close>

record date =
  year :: nat
  month :: nat
  day :: nat

definition is_leap :: "nat \<Rightarrow> bool" where
  "is_leap y = (y mod 4 = 0 \<and> (y mod 100 \<noteq> 0 \<or> y mod 400 = 0))"

definition days_in_month :: "nat \<Rightarrow> nat \<Rightarrow> nat" where
  "days_in_month y m =
     (if m = 2 then (if is_leap y then 29 else 28)
      else if m \<in> {4, 6, 9, 11} then 30 else 31)"

text \<open>A date of the Gregorian calendar.\<close>

definition valid_date :: "date \<Rightarrow> bool" where
  "valid_date d =
     (1 \<le> month d \<and> month d \<le> 12 \<and> 1 \<le> day d \<and> day d \<le> days_in_month (year d) (month d))"

text \<open>\<open>a\<close> is a later day than \<open>b\<close>.\<close>

definition date_after :: "date \<Rightarrow> date \<Rightarrow> bool" where
  "date_after a b =
     (year b < year a \<or> (year b = year a \<and>
        (month b < month a \<or> (month b = month a \<and> day b < day a))))"

subsection \<open>\<^verbatim>\<open>datetime.strptime(s, '%Y-%m-%d')\<close>\<close>

definition is_digit :: "char \<Rightarrow> bool" where
  "is_digit c = (c \<in> set ''0123456789'')"

definition digit_val :: "char \<Rightarrow> nat" where
  "digit_val c = of_char c - 48"

text \<open>\<^verbatim>\<open>int(s)\<close> for a string of decimal digits.\<close>

definition digits_value :: "string \<Rightarrow> nat" where
  "digits_value s = foldl (\<lambda>n c. 10 * n + digit_val c) 0 s"

text \<open>
  \<^verbatim>\<open>repr(s)\<close> of a text. The quote is the double quote when the text holds a
  single quote and no double quote, else the single quote. A backslash and the chosen
  quote are preceded by a backslash; tab, newline and carriage return are written
  \<^verbatim>\<open>\t\<close>, \<^verbatim>\<open>\n\<close>, \<^verbatim>\<open>\r\<close>; every other character that is not
  printable (the control characters, the no-break space and the soft hyphen) is written
  \<^verbatim>\<open>\x\<close> and two hexadecimal digits.
\<close>

definition hex_digit :: "nat \<Rightarrow> char" where
  "hex_digit n = ''0123456789abcdef'' ! (n mod 16)"

definition printable :: "char \<Rightarrow> bool" where
  "printable c =
     (let n = (of_char c :: nat) in (32 \<le> n \<and> n < 127) \<or> (161 \<le> n \<and> n \<noteq> 173))"

definition repr_char :: "char \<Rightarrow> char \<Rightarrow> string" where
  "repr_char q c =
     (if c = CHR 0x5C \<or> c = q then [CHR 0x5C, c]
      else if c = CHR 0x09 then [CHR 0x5C, CHR ''t'']
      else if c = CHR 0x0A then [CHR 0x5C, CHR ''n'']
      else if c = CHR 0x0D then [CHR 0x5C, CHR ''r'']
      else if printable c then [c]
      else [CHR 0x5C, CHR ''x'', hex_digit (of_char c div 16), hex_digit (of_char c)])"

definition py_repr :: "string \<Rightarrow> string" where
  "py_repr s =
     (let q = (if CHR 0x27 \<in> set s \<and> CHR 0x22 \<notin> set s then CHR 0x22 else CHR 0x27)
      in [q] @ concat (map (repr_char q) s) @ [q])"

text \<open>
  The standard library turns the format into the pattern
  \<^verbatim>\<open>(\d\d\d\d)-(1[0-2]|0[1-9]|[1-9])-(3[0-1]|[1-2]\d|0[1-9]|[1-9]| [1-9])\<close>
  and matches it at the start of the text. \<open>month_alts\<close> and \<open>day_alts\<close> list what each
  group can match, in the order of its alternatives, with the text left over.
\<close>

definition month_alts :: "string \<Rightarrow> (string \<times> string) list" where
  "month_alts s =
     (case s of
        a # b # r \<Rightarrow>
          (if a = CHR ''1'' \<and> b \<in> set ''012'' then [([a, b], r)] else []) @
          (if a = CHR ''0'' \<and> b \<in> set ''123456789'' then [([a, b], r)] else [])
      | _ \<Rightarrow> []) @
     (case s of
        a # r \<Rightarrow> (if a \<in> set ''123456789'' then [([a], r)] else [])
      | [] \<Rightarrow> [])"

definition day_alts :: "string \<Rightarrow> (string \<times> string) list" where
  "day_alts s =
     (case s of
        a # b # r \<Rightarrow>
          (if a = CHR ''3'' \<and> b \<in> set ''01'' then [([a, b], r)] else []) @
          (if a \<in> set ''12'' \<and> is_digit b then [([a, b], r)] else []) @
          (if a = CHR ''0'' \<and> b \<in> set ''123456789'' then [([a, b], r)] else [])
      | _ \<Rightarrow> []) @
     (case s of
        a # r \<Rightarrow> (if a \<in> set ''123456789'' then [([a], r)] else [])
      | [] \<Rightarrow> []) @
     (case s of
        a # b # r \<Rightarrow> (if a = CHR '' '' \<and> b \<in> set ''123456789'' then [([b], r)] else [])
      | _ \<Rightarrow> [])"

text \<open>The match of the whole pattern: year, month and day as text, and what is left.\<close>

definition match_ymd :: "string \<Rightarrow> (string \<times> string \<times> string \<times> string) option" where
  "match_ymd s =
     (let y = take 4 s; r1 = drop 4 s in
      if length y = 4 \<and> list_all is_digit y \<and> r1 \<noteq> [] \<and> hd r1 = CHR ''-'' then
        (case find (\<lambda>(m, r2). r2 \<noteq> [] \<and> hd r2 = CHR ''-'' \<and> day_alts (tl r2) \<noteq> [])
                (month_alts (tl r1)) of
           None \<Rightarrow> None
         | Some (m, r2) \<Rightarrow>
             (case day_alts (tl r2) of
                [] \<Rightarrow> None
              | (d, r3) # _ \<Rightarrow> Some (y, m, d, r3)))
      else None)"

definition strptime :: "string \<Rightarrow> pyexn + date" where
  "strptime s =
     (case match_ymd s of
        None \<Rightarrow>
          Inl (PyExn ''ValueError''
                (''time data '' @ py_repr s @ '' does not match format '' @ py_repr ''%Y-%m-%d''))
      | Some (y, m, d, rest) \<Rightarrow>
          if rest \<noteq> [] then
            Inl (PyExn ''ValueError'' (''unconverted data remains: '' @ rest))
          else
            let dt = \<lparr>year = digits_value y, month = digits_value m, day = digits_value d\<rparr> in
            if year dt = 0 then Inl (PyExn ''ValueError'' ''year 0 is out of range'')
            else if days_in_month (year dt) (month dt) < day dt then
              Inl (PyExn ''ValueError'' ''day is out of range for month'')
            else Inr dt)"

section \<open>The request context\<close>

text \<open>
  What a view function reads and writes: the session, the flashed messages (message and
  category) and the committed rows of the database. A row is the list of its columns.
\<close>

datatype colval = Null | Text string | Date date | Integer nat

type_synonym row = "(string \<times> colval) list"

record world =
  session :: "(string \<times> json) list"
  flashes :: "(string \<times> string) list"
  guests :: "(nat \<times> row) list"
  custom_fields :: "row list"

text \<open>
  A request: \<^verbatim>\<open>request.method\<close> (which the framework gives in uppercase),
  \<^verbatim>\<open>request.form\<close> and the parsed JSON body.
\<close>

record request =
  http_method :: string
  form :: "(string \<times> string) list"
  json_body :: json

text \<open>
  A response: a redirect to \<^verbatim>\<open>url_for(endpoint)\<close>, a rendered template (by name),
  a \<^verbatim>\<open>jsonify\<close>-ed object, the 404 of \<^verbatim>\<open>get_or_404\<close>, and the two answers
  the framework gives before a view runs: 405 for a method the route does not list, and
  the automatic answer to \<^verbatim>\<open>OPTIONS\<close>.
\<close>

datatype response =
    Redirect string
  | Render string
  | Jsonify json
  | NotFound
  | MethodNotAllowed
  | AutomaticOptions

type_synonym view = "request \<Rightarrow> world \<Rightarrow> (pyexn + response) \<times> world"

definition flash :: "string \<Rightarrow> string \<Rightarrow> world \<Rightarrow> world" where
  "flash msg category w = w\<lparr>flashes := flashes w @ [(msg, category)]\<rparr>"

text \<open>\<^verbatim>\<open>key in session\<close>.\<close>

definition in_session :: "string \<Rightarrow> world \<Rightarrow> bool" where
  "in_session k w = (k \<in> fst ` set (session w))"

text \<open>The authentication decorator.\<close>

definition login_required :: "view \<Rightarrow> view" where
  "login_required f = (\<lambda>req w.
     if \<not> in_session ''logged_in'' w then
       (Inr (Redirect ''login''), flash ''Accesso richiesto'' ''danger'' w)
     else f req w)"

section \<open>The fiscal code endpoint\<close>

text \<open>
  \<^verbatim>\<open>calculate_fiscal_code\<close> is imported from a module that is not part of the
  sources at hand, so the handler takes it as a parameter: a function of the five
  arguments the handler passes, which returns a value or raises.
\<close>

type_synonym calculate = "json \<Rightarrow> json \<Rightarrow> json \<Rightarrow> date \<Rightarrow> json \<Rightarrow> pyexn + json"

text \<open>\<^verbatim>\<open>type(v).__name__\<close>, as error messages print it.\<close>

fun type_name :: "json \<Rightarrow> string" where
  "type_name JNull = ''NoneType''"
| "type_name (JBool b) = ''bool''"
| "type_name (JInt i) = ''int''"
| "type_name (JFloat f) = ''float''"
| "type_name (JStr s) = ''str''"
| "type_name (JArr xs) = ''list''"
| "type_name (JObj kvs) = ''dict''"

text \<open>
  \<^verbatim>\<open>datetime.strptime(birth_date, '%Y-%m-%d')\<close> on whatever the body held under
  \<^verbatim>\<open>birth_date\<close>: only a text is parsed.
\<close>

definition strptime_obj :: "json \<Rightarrow> pyexn + date" where
  "strptime_obj v =
     (case v of
        JStr s \<Rightarrow> strptime s
      | _ \<Rightarrow>
          Inl (PyExn ''TypeError'' (''strptime() argument 1 must be str, not '' @ type_name v)))"

definition missing_data :: json where
  "missing_data = JObj [(''error'', JStr ''Dati mancanti per il calcolo del codice fiscale'')]"

text \<open>
  The handler of \<^verbatim>\<open>POST /calculate_fiscal_code\<close>. A body that is not a JSON object
  has no \<^verbatim>\<open>get\<close>: the handler raises.
\<close>

definition calc_fiscal_code :: "calculate \<Rightarrow> json \<Rightarrow> pyexn + response" where
  "calc_fiscal_code calculate_fiscal_code data =
     (case data of
        JObj d \<Rightarrow>
          (let last_name = dict_get d ''last_name'' (JStr '''');
               first_name = dict_get d ''first_name'' (JStr '''');
               gender = dict_get d ''gender'' (JStr '''');
               birth_date = dict_get d ''birth_date'' (JStr '''');
               birth_place = dict_get d ''birth_place'' (JStr '''')
           in
           if \<not> py_all [last_name, first_name, gender, birth_date, birth_place] then
             Inr (Jsonify missing_data)
           else
             (case strptime_obj birth_date of
                Inl e \<Rightarrow> Inr (Jsonify (JObj [(''error'', JStr (exn_str e))]))
              | Inr bd \<Rightarrow>
                  (case calculate_fiscal_code last_name first_name gender bd birth_place of
                     Inl e \<Rightarrow> Inr (Jsonify (JObj [(''error'', JStr (exn_str e))]))
                   | Inr fiscal_code \<Rightarrow>
                       Inr (Jsonify (JObj [(''fiscal_code'', fiscal_code)])))))
      | _ \<Rightarrow>
          Inl (PyExn ''AttributeError''
                (py_repr (type_name data) @ '' object has no attribute '' @ py_repr ''get'')))"

text \<open>The keys the handler reads from the body.\<close>

definition request_fields :: "string list" where
  "request_fields = [''last_name'', ''first_name'', ''gender'', ''birth_date'', ''birth_place'']"

definition calc_fiscal_code_view :: "calculate \<Rightarrow> view" where
  "calc_fiscal_code_view calculate_fiscal_code =
     (\<lambda>req w. (calc_fiscal_code calculate_fiscal_code (json_body req), w))"

section \<open>Creating and editing a guest\<close>

text \<open>Sequencing of computations that may raise: the first exception wins.\<close>

definition bind_exn :: "'e + 'a \<Rightarrow> ('a \<Rightarrow> 'e + 'b) \<Rightarrow> 'e + 'b" where
  "bind_exn m f = (case m of Inl e \<Rightarrow> Inl e | Inr x \<Rightarrow> f x)"

text \<open>
  \<^verbatim>\<open>request.form[key]\<close>: the first value sent under the key; a missing key raises
  (an exception that \<^verbatim>\<open>except Exception\<close> catches).
\<close>

definition form_item :: "(string \<times> string) list \<Rightarrow> string \<Rightarrow> pyexn + string" where
  "form_item f k =
     (case map_of f k of
        None \<Rightarrow>
          Inl (PyExn ''BadRequestKeyError''
                (''400 Bad Request: The browser (or proxy) sent a request that this server ''
                 @ ''could not understand.''))
      | Some v \<Rightarrow> Inr v)"

text \<open>\<^verbatim>\<open>request.form.get(key)\<close>, read for its truth value: a missing key is falsy.\<close>

definition form_get :: "(string \<times> string) list \<Rightarrow> string \<Rightarrow> string" where
  "form_get f k = (case map_of f k of None \<Rightarrow> [] | Some v \<Rightarrow> v)"

text \<open>\<^verbatim>\<open>request.form.items()\<close>: every key once, with its first value.\<close>

fun form_items :: "(string \<times> string) list \<Rightarrow> (string \<times> string) list" where
  "form_items [] = []"
| "form_items ((k, v) # r) = (k, v) # form_items (filter (\<lambda>kv. fst kv \<noteq> k) r)"

text \<open>\<^verbatim>\<open>d + timedelta(days=n)\<close>, one day at a time.\<close>

definition next_day :: "date \<Rightarrow> date" where
  "next_day d =
     (if day d < days_in_month (year d) (month d) then d\<lparr>day := day d + 1\<rparr>
      else if month d < 12 then d\<lparr>month := month d + 1, day := 1\<rparr>
      else \<lparr>year = year d + 1, month = 1, day = 1\<rparr>)"

definition add_days :: "nat \<Rightarrow> date \<Rightarrow> pyexn + date" where
  "add_days n d =
     (let r = (next_day ^^ n) d in
      if 9999 < year r then Inl (PyExn ''OverflowError'' ''date value out of range'')
      else Inr r)"

text \<open>The expressions the handlers compute from the form, in the source's words.\<close>

definition text_of :: "(string \<times> string) list \<Rightarrow> string \<Rightarrow> pyexn + colval" where
  "text_of f k = bind_exn (form_item f k) (\<lambda>v. Inr (Text v))"

definition date_of :: "(string \<times> string) list \<Rightarrow> string \<Rightarrow> pyexn + colval" where
  "date_of f k = bind_exn (form_item f k) (\<lambda>v. bind_exn (strptime v) (\<lambda>d. Inr (Date d)))"

definition expiry_of :: "(string \<times> string) list \<Rightarrow> string \<Rightarrow> pyexn + colval" where
  "expiry_of f k =
     bind_exn (form_item f k) (\<lambda>v.
       bind_exn (strptime v) (\<lambda>d. bind_exn (add_days 180 d) (\<lambda>e. Inr (Date e))))"

text \<open>
  The keyword arguments of \<^verbatim>\<open>Guest(...)\<close> in \<^verbatim>\<open>new_guest\<close>, evaluated in the
  order they are written.
\<close>

definition new_guest_columns ::
    "date \<Rightarrow> (string \<times> string) list \<Rightarrow> (string \<times> (pyexn + colval)) list" where
  "new_guest_columns now f =
     [(''last_name'', text_of f ''last_name''),
      (''first_name'', text_of f ''first_name''),
      (''gender'', text_of f ''gender''),
      (''birth_place'', text_of f ''birth_place''),
      (''province'', text_of f ''province''),
      (''birth_date'', date_of f ''birth_date''),
      (''permit_number'', text_of f ''permit_number''),
      (''permit_date'',
         bind_exn (form_item f ''permit_date'') (\<lambda>c.
           if c \<noteq> [] then date_of f ''permit_date'' else Inr Null)),
      (''permit_expiry'',
         bind_exn (form_item f ''permit_date'') (\<lambda>c.
           if c \<noteq> [] then expiry_of f ''permit_date'' else Inr Null)),
      (''health_card'', text_of f ''health_card''),
      (''health_card_expiry'',
         bind_exn (form_item f ''health_card_expiry'') (\<lambda>c.
           if c \<noteq> [] then date_of f ''health_card_expiry'' else Inr Null)),
      (''entry_date'',
         bind_exn (form_item f ''entry_date'') (\<lambda>c.
           if c \<noteq> [] then date_of f ''entry_date'' else Inr (Date now))),
      (''check_in_date'',
         if form_get f ''check_in_date'' \<noteq> [] then date_of f ''check_in_date'' else Inr Null),
      (''check_out_date'',
         if form_get f ''check_out_date'' \<noteq> [] then date_of f ''check_out_date'' else Inr Null),
      (''room_number'', text_of f ''room_number''),
      (''floor'', text_of f ''floor''),
      (''family_relations'', text_of f ''family_relations''),
      (''fiscal_code'', text_of f ''fiscal_code''),
      (''country_code'', text_of f ''country_code'')]"

fun eval_columns :: "(string \<times> (pyexn + colval)) list \<Rightarrow> pyexn + row" where
  "eval_columns [] = Inr []"
| "eval_columns ((k, c) # cs) =
     bind_exn c (\<lambda>v. bind_exn (eval_columns cs) (\<lambda>r. Inr ((k, v) # r)))"

text \<open>
  The custom fields of a form: for every key that starts with \<^verbatim>\<open>custom_field_\<close>,
  the name is looked up under \<^verbatim>\<open>custom_field_name_\<close> and the last
  \<^verbatim>\<open>_\<close>-separated part of the key.
\<close>

definition last_part :: "string \<Rightarrow> string" where
  "last_part k = rev (takeWhile (\<lambda>c. c \<noteq> CHR ''_'') (rev k))"

definition custom_field_rows :: "nat \<Rightarrow> (string \<times> string) list \<Rightarrow> row list" where
  "custom_field_rows gid f =
     concat (map (\<lambda>(key, v).
        if take 13 key = ''custom_field_'' then
          (let field_name = form_get f (''custom_field_name_'' @ last_part key) in
           if field_name \<noteq> [] \<and> v \<noteq> [] then
             [[(''guest_id'', Integer gid), (''field_name'', Text field_name), (''field_value'', Text v)]]
           else [])
        else []) (form_items f))"

text \<open>
  What the handlers need from outside: the clock, the storage layer's verdict on a row
  at commit, and its verdict on the deletion of a guest (the exception it raises, if
  any).
\<close>

record env =
  now :: date
  db_check :: "row \<Rightarrow> pyexn option"
  db_delete :: "nat \<Rightarrow> pyexn option"

definition commit_rows :: "env \<Rightarrow> row list \<Rightarrow> pyexn + unit" where
  "commit_rows E rows =
     (case List.map_filter (db_check E) rows of [] \<Rightarrow> Inr () | e # _ \<Rightarrow> Inl e)"

text \<open>The primary key the database gives a new guest.\<close>

definition fresh_id :: "world \<Rightarrow> nat" where
  "fresh_id w = Suc (fold max (map fst (guests w)) 0)"

definition save_failed :: "string \<Rightarrow> pyexn \<Rightarrow> world \<Rightarrow> (pyexn + response) \<times> world" where
  "save_failed prefix e w = (Inr (Render ''new_guest.html''), flash (prefix @ exn_str e) ''danger'' w)"

definition new_guest :: "env \<Rightarrow> view" where
  "new_guest E req w =
     (if http_method req = ''POST'' then
        (case eval_columns (new_guest_columns (now E) (form req)) of
           Inl e \<Rightarrow> save_failed ''Errore durante il salvataggio: '' e w
         | Inr g \<Rightarrow>
             (case commit_rows E [g] of
                Inl e \<Rightarrow> save_failed ''Errore durante il salvataggio: '' e w
              | Inr _ \<Rightarrow>
                  (let gid = fresh_id w;
                       w1 = w\<lparr>guests := guests w @ [(gid, g)]\<rparr>;
                       cfs = custom_field_rows gid (form req)
                   in
                   case commit_rows E cfs of
                     Inl e \<Rightarrow> save_failed ''Errore durante il salvataggio: '' e w1
                   | Inr _ \<Rightarrow>
                       (Inr (Redirect ''archive''),
                        flash ''Ospite aggiunto con successo'' ''success''
                          (w1\<lparr>custom_fields := custom_fields w1 @ cfs\<rparr>)))))
      else (Inr (Render ''new_guest.html''), w))"

text \<open>Attribute assignment on a loaded row: \<^verbatim>\<open>guest.k = v\<close>.\<close>

fun set_attr :: "string \<Rightarrow> colval \<Rightarrow> row \<Rightarrow> row" where
  "set_attr k v [] = [(k, v)]"
| "set_attr k v ((k', v') # r) = (if k' = k then (k, v) # r else (k', v') # set_attr k v r)"

definition assign :: "string \<Rightarrow> pyexn + colval \<Rightarrow> row \<Rightarrow> pyexn + row" where
  "assign k c g = bind_exn c (\<lambda>v. Inr (set_attr k v g))"

text \<open>\<^verbatim>\<open>if request.form[k]: guest.k = datetime.strptime(request.form[k], ...)\<close>\<close>

definition assign_date_if :: "(string \<times> string) list \<Rightarrow> string \<Rightarrow> row \<Rightarrow> pyexn + row" where
  "assign_date_if f k g =
     bind_exn (form_item f k) (\<lambda>c. if c \<noteq> [] then assign k (date_of f k) g else Inr g)"

text \<open>The assignments of \<^verbatim>\<open>edit_guest\<close>, in the order they are written.\<close>

definition edit_guest_updates :: "(string \<times> string) list \<Rightarrow> (row \<Rightarrow> pyexn + row) list" where
  "edit_guest_updates f =
     [assign ''last_name'' (text_of f ''last_name''),
      assign ''first_name'' (text_of f ''first_name''),
      assign ''gender'' (text_of f ''gender''),
      assign ''birth_place'' (text_of f ''birth_place''),
      assign ''province'' (text_of f ''province''),
      assign ''birth_date'' (date_of f ''birth_date''),
      assign ''permit_number'' (text_of f ''permit_number''),
      (\<lambda>g. bind_exn (form_item f ''permit_date'') (\<lambda>c.
         if c \<noteq> [] then
           bind_exn (assign ''permit_date'' (date_of f ''permit_date'') g)
             (assign ''permit_expiry'' (expiry_of f ''permit_date''))
         else Inr g)),
      assign ''health_card'' (text_of f ''health_card''),
      assign_date_if f ''health_card_expiry'',
      assign_date_if f ''entry_date'',
      (\<lambda>g. if form_get f ''check_in_date'' \<noteq> []
            then assign ''check_in_date'' (date_of f ''check_in_date'') g else Inr g),
      (\<lambda>g. if form_get f ''check_out_date'' \<noteq> []
            then assign ''check_out_date'' (date_of f ''check_out_date'') g else Inr g),
      assign ''room_number'' (text_of f ''room_number''),
      assign ''floor'' (text_of f ''floor''),
      assign ''family_relations'' (text_of f ''family_relations''),
      assign ''fiscal_code'' (text_of f ''fiscal_code''),
      assign ''country_code'' (text_of f ''country_code'')]"

fun apply_updates :: "(row \<Rightarrow> pyexn + row) list \<Rightarrow> row \<Rightarrow> pyexn + row" where
  "apply_updates [] g = Inr g"
| "apply_updates (u # us) g = bind_exn (u g) (apply_updates us)"

definition of_guest :: "nat \<Rightarrow> row \<Rightarrow> bool" where
  "of_guest gid cf = (map_of cf ''guest_id'' = Some (Integer gid))"

definition update_failed :: string where
  "update_failed = ''Errore durante l'' @ [CHR 0x27] @ ''aggiornamento: ''"

definition edit_guest :: "env \<Rightarrow> nat \<Rightarrow> view" where
  "edit_guest E guest_id req w =
     (case map_of (guests w) guest_id of
        None \<Rightarrow> (Inr NotFound, w)
      | Some guest \<Rightarrow>
          if http_method req = ''POST'' then
            (case apply_updates (edit_guest_updates (form req)) guest of
               Inl e \<Rightarrow> save_failed update_failed e w
             | Inr g \<Rightarrow>
                 (let cfs = custom_field_rows guest_id (form req) in
                  case commit_rows E (g # cfs) of
                    Inl e \<Rightarrow> save_failed update_failed e w
                  | Inr _ \<Rightarrow>
                      (Inr (Redirect ''guest_detail''),
                       flash ''Ospite aggiornato con successo'' ''success''
                         (w\<lparr>guests := map (\<lambda>(i, r). if i = guest_id then (i, g) else (i, r))
                                         (guests w),
                            custom_fields :=
                              filter (\<lambda>cf. \<not> of_guest guest_id cf) (custom_fields w) @ cfs\<rparr>))))
          else (Inr (Render ''new_guest.html''), w))"

definition archive :: view where
  "archive req w = (Inr (Render ''archive.html''), w)"

definition guest_detail :: "nat \<Rightarrow> view" where
  "guest_detail guest_id req w =
     (case map_of (guests w) guest_id of
        None \<Rightarrow> (Inr NotFound, w)
      | Some guest \<Rightarrow> (Inr (Render ''guest_detail.html''), w))"

text \<open>
  Deleting a guest and its custom fields. When the storage layer raises, the deletion
  is rolled back and the error is flashed; the answer is the redirect either way.
\<close>

definition delete_failed :: string where
  "delete_failed = ''Errore durante l'' @ [CHR 0x27] @ ''eliminazione: ''"

definition delete_guest :: "env \<Rightarrow> nat \<Rightarrow> view" where
  "delete_guest E guest_id req w =
     (case map_of (guests w) guest_id of
        None \<Rightarrow> (Inr NotFound, w)
      | Some guest \<Rightarrow>
          (case db_delete E guest_id of
             Some e \<Rightarrow>
               (Inr (Redirect ''archive''), flash (delete_failed @ exn_str e) ''danger'' w)
           | None \<Rightarrow>
               (Inr (Redirect ''archive''),
                flash ''Ospite eliminato con successo'' ''success''
                  (w\<lparr>guests := filter (\<lambda>(i, r). i \<noteq> guest_id) (guests w),
                     custom_fields :=
                       filter (\<lambda>cf. \<not> of_guest guest_id cf) (custom_fields w)\<rparr>))))"

definition logout :: view where
  "logout req w =
     (Inr (Redirect ''login''),
      flash ''Disconnessione effettuata'' ''success''
        (w\<lparr>session := filter (\<lambda>kv. fst kv \<noteq> ''logged_in'') (session w)\<rparr>))"

definition index :: view where
  "index req w =
     (if in_session ''logged_in'' w then (Inr (Redirect ''dashboard''), w)
      else (Inr (Redirect ''login''), w))"

section \<open>The routes\<close>

text \<open>
  The bodies of the views that read the settings table, the spreadsheet library or the
  permit utilities are parameters; how each is decorated is the application's.
\<close>

record bodies =
  login_body :: view
  dashboard_body :: view
  import_data_body :: view
  export_data_body :: view
  settings_body :: view

datatype endpoint =
    Route_login
  | Route_logout
  | Route_index
  | Route_dashboard
  | Route_new_guest
  | Route_archive
  | Route_guest_detail nat
  | Route_edit_guest nat
  | Route_delete_guest nat
  | Route_import_data
  | Route_export_data
  | Route_settings
  | Route_calc_fiscal_code

text \<open>The view function of each endpoint, decorated as the application decorates it.\<close>

fun view_function :: "env \<Rightarrow> calculate \<Rightarrow> bodies \<Rightarrow> endpoint \<Rightarrow> view" where
  "view_function E c B Route_login = login_body B"
| "view_function E c B Route_logout = logout"
| "view_function E c B Route_index = index"
| "view_function E c B Route_dashboard = login_required (dashboard_body B)"
| "view_function E c B Route_new_guest = login_required (new_guest E)"
| "view_function E c B Route_archive = login_required archive"
| "view_function E c B (Route_guest_detail guest_id) = login_required (guest_detail guest_id)"
| "view_function E c B (Route_edit_guest guest_id) = login_required (edit_guest E guest_id)"
| "view_function E c B (Route_delete_guest guest_id) =
     login_required (delete_guest E guest_id)"
| "view_function E c B Route_import_data = login_required (import_data_body B)"
| "view_function E c B Route_export_data = login_required (export_data_body B)"
| "view_function E c B Route_settings = login_required (settings_body B)"
| "view_function E c B Route_calc_fiscal_code = calc_fiscal_code_view c"

text \<open>
  The \<^verbatim>\<open>methods\<close> of each \<^verbatim>\<open>@app.route\<close>; a route declared without them
  takes \<^verbatim>\<open>GET\<close>.
\<close>

fun declared_methods :: "endpoint \<Rightarrow> string list" where
  "declared_methods Route_login = [''GET'', ''POST'']"
| "declared_methods Route_logout = [''GET'']"
| "declared_methods Route_index = [''GET'']"
| "declared_methods Route_dashboard = [''GET'']"
| "declared_methods Route_new_guest = [''GET'', ''POST'']"
| "declared_methods Route_archive = [''GET'']"
| "declared_methods (Route_guest_detail guest_id) = [''GET'']"
| "declared_methods (Route_edit_guest guest_id) = [''GET'', ''POST'']"
| "declared_methods (Route_delete_guest guest_id) = [''POST'']"
| "declared_methods Route_import_data = [''POST'']"
| "declared_methods Route_export_data = [''GET'', ''POST'']"
| "declared_methods Route_settings = [''GET'', ''POST'']"
| "declared_methods Route_calc_fiscal_code = [''POST'']"

text \<open>The methods a route accepts: the framework adds \<^verbatim>\<open>HEAD\<close> where \<^verbatim>\<open>GET\<close> is.\<close>

definition route_methods :: "endpoint \<Rightarrow> string list" where
  "route_methods ep =
     declared_methods ep @ (if ''GET'' \<in> set (declared_methods ep) then [''HEAD''] else [])"

text \<open>
  Dispatch of a request whose URL matched the route of the endpoint. The framework
  answers \<^verbatim>\<open>OPTIONS\<close> itself and refuses a method the route does not accept;
  neither the decorator nor the view runs then.
\<close>

definition app_route :: "env \<Rightarrow> calculate \<Rightarrow> bodies \<Rightarrow> endpoint \<Rightarrow> view" where
  "app_route E c B ep req w =
     (if http_method req = ''OPTIONS'' then (Inr AutomaticOptions, w)
      else if http_method req \<notin> set (route_methods ep) then (Inr MethodNotAllowed, w)
      else view_function E c B ep req w)"

section \<open>The fiscal code computation\<close>

text \<open>
  The module \<^verbatim>\<open>fiscal_code\<close>, which holds \<^verbatim>\<open>calculate_fiscal_code\<close>, is not among
  the sources. This section follows the specification's description of it, component by
  component; the tables the specification leaves to the official algorithm are
  parameters.
\<close>

text \<open>
  Modelled from the spec: the data model of the missing module, a person's sex, the kind
  and the entries of the place code table, the input of a computation and the error
  kinds.
\<close>

datatype sex = Male | Female

datatype place_kind = Municipality | ForeignCountry

record place_code_entry =
  entry_name :: string
  entry_code :: string
  entry_kind :: place_kind

record person_input =
  last_name :: string
  first_name :: string
  sex :: sex
  birth_date :: date
  birth_place :: string
  is_foreign_birth :: bool

datatype error =
    EmptyNameError
  | UnknownPlaceError
  | InvalidDateError
  | InvalidFormatError
  | ChecksumMismatchError
  | CodeSpaceExhaustedError

text \<open>
  Modelled from the spec: the reference data of the missing module. The specification
  names the odd and even checksum tables and the place code table without giving their
  entries, and asks for diacritics to be stripped without saying how a text encodes them.
\<close>

record ref_data =
  strip_diacritics :: "string \<Rightarrow> string"
  odd_table :: "char \<Rightarrow> nat"
  even_table :: "char \<Rightarrow> nat"
  place_table :: "place_code_entry list"

subsection \<open>Name Encoder\<close>

text \<open>
  Modelled from the spec: the letters A to Z of the missing encoder, the uppercase form
  of a letter, and the vowels among them.
\<close>

definition is_upper :: "char \<Rightarrow> bool" where
  "is_upper c = (c \<in> set ''ABCDEFGHIJKLMNOPQRSTUVWXYZ'')"

definition to_upper :: "char \<Rightarrow> char" where
  "to_upper c =
     (case map_of (zip ''abcdefghijklmnopqrstuvwxyz'' ''ABCDEFGHIJKLMNOPQRSTUVWXYZ'') c of
        None \<Rightarrow> c
      | Some u \<Rightarrow> u)"

definition is_vowel :: "char \<Rightarrow> bool" where
  "is_vowel c = (c \<in> set ''AEIOU'')"

text \<open>
  Modelled from the spec: normalize to uppercase, strip whitespace, punctuation and
  diacritics, keep only the letters A to Z.
\<close>

definition normalize :: "ref_data \<Rightarrow> string \<Rightarrow> string" where
  "normalize R s = filter is_upper (map to_upper (strip_diacritics R s))"

text \<open>
  Modelled from the spec: the consonants and the vowels of a normalized name of the
  missing encoder, each in left-to-right order.
\<close>

definition consonants :: "string \<Rightarrow> string" where
  "consonants n = filter (\<lambda>c. \<not> is_vowel c) n"

definition vowels :: "string \<Rightarrow> string" where
  "vowels n = filter is_vowel n"

text \<open>
  Modelled from the spec: the surname rule of the missing encoder, consonants in
  left-to-right order; if fewer than 3, vowels
  appended in left-to-right order; if still fewer than 3, padded with X on the right.
\<close>

definition consonant_vowel_code :: "string \<Rightarrow> string" where
  "consonant_vowel_code n =
     (let code = take 3 (consonants n);
          code = (if length code < 3 then take 3 (code @ vowels n) else code)
      in code @ replicate (3 - length code) CHR ''X'')"

text \<open>
  Modelled from the spec: \<^verbatim>\<open>encode_surname\<close> of the missing module; a name of
  length 0 after normalization is an input error.
\<close>

definition encode_surname :: "ref_data \<Rightarrow> string \<Rightarrow> error + string" where
  "encode_surname R s =
     (let n = normalize R s in
      if n = [] then Inl EmptyNameError else Inr (consonant_vowel_code n))"

text \<open>
  Modelled from the spec: \<^verbatim>\<open>encode_given_name\<close> of the missing module, the same
  rule, except that with 4 or more consonants the 1st,
  3rd and 4th are used.
\<close>

definition encode_given_name :: "ref_data \<Rightarrow> string \<Rightarrow> error + string" where
  "encode_given_name R s =
     (let n = normalize R s in
      if n = [] then Inl EmptyNameError
      else
        (case consonants n of
           c1 # c2 # c3 # c4 # _ \<Rightarrow> Inr [c1, c3, c4]
         | _ \<Rightarrow> Inr (consonant_vowel_code n)))"

subsection \<open>Date/Sex Encoder\<close>

text \<open>
  Modelled from the spec: zero-padding to 2 digits and the month letter table of the
  missing date encoder.
\<close>

definition digit_char :: "nat \<Rightarrow> char" where
  "digit_char n = ''0123456789'' ! (n mod 10)"

fun decimal :: "nat \<Rightarrow> string" where
  "decimal n = (if n < 10 then [digit_char n] else decimal (n div 10) @ [digit_char n])"

definition zero_pad2 :: "nat \<Rightarrow> string" where
  "zero_pad2 n = (let s = decimal n in replicate (2 - length s) CHR ''0'' @ s)"

definition month_letters :: string where
  "month_letters = ''ABCDEHLMPRST''"

text \<open>
  Modelled from the spec: the missing date and sex encoder, the last two digits of the
  year, the month letter of the fixed
  table, and the day of the month, 40 more for a female; a date that is not a Gregorian
  date or lies in the future is an \<open>InvalidDateError\<close>. The current day is an argument.
\<close>

definition encode_date :: "date \<Rightarrow> date \<Rightarrow> sex \<Rightarrow> error + (string \<times> char \<times> string)" where
  "encode_date today d sx =
     (if \<not> valid_date d \<or> date_after d today then Inl InvalidDateError
      else Inr (zero_pad2 (year d mod 100),
                month_letters ! (month d - 1),
                zero_pad2 (if sx = Female then day d + 40 else day d)))"

subsection \<open>Place Code Table\<close>

text \<open>
  Modelled from the spec: the normalized form of a place name that the missing table
  lookup compares, without regard to case and diacritics.
\<close>

definition place_key :: "ref_data \<Rightarrow> string \<Rightarrow> string" where
  "place_key R s = map to_upper (strip_diacritics R s)"

text \<open>
  Modelled from the spec: \<^verbatim>\<open>lookup\<close> of the missing module, the entry of the
  requested namespace whose name matches
  without regard to case and diacritics, or \<open>UnknownPlaceError\<close>.
\<close>

definition lookup :: "ref_data \<Rightarrow> string \<Rightarrow> bool \<Rightarrow> error + place_code_entry" where
  "lookup R nm is_foreign =
     (case find (\<lambda>e. entry_kind e = (if is_foreign then ForeignCountry else Municipality)
                     \<and> place_key R (entry_name e) = place_key R nm) (place_table R) of
        None \<Rightarrow> Inl UnknownPlaceError
      | Some e \<Rightarrow> Inr e)"

text \<open>
  Modelled from the spec: the invariant of a table entry, a code of one letter and three
  digits; the letter is uppercase, as every character of a fiscal code is.
\<close>

definition place_code_ok :: "string \<Rightarrow> bool" where
  "place_code_ok c = (length c = 4 \<and> is_upper (c ! 0) \<and> list_all is_digit (drop 1 c))"

definition wf_ref :: "ref_data \<Rightarrow> bool" where
  "wf_ref R = list_all (\<lambda>e. place_code_ok (entry_code e)) (place_table R)"

subsection \<open>Composer\<close>

text \<open>
  Modelled from the spec: \<^verbatim>\<open>compose\<close> of the missing module, surname code,
  given-name code, year, month and day, place
  code, in this order; the first error is passed on unchanged.
\<close>

definition compose :: "ref_data \<Rightarrow> date \<Rightarrow> person_input \<Rightarrow> error + string" where
  "compose R today p =
     bind_exn (encode_surname R (last_name p)) (\<lambda>sc.
     bind_exn (encode_given_name R (first_name p)) (\<lambda>gc.
     bind_exn (encode_date today (birth_date p) (sex p)) (\<lambda>(y, m, d).
     bind_exn (lookup R (birth_place p) (is_foreign_birth p)) (\<lambda>e.
       Inr (sc @ gc @ y @ [m] @ d @ entry_code e)))))"

subsection \<open>Checksum Calculator\<close>

text \<open>
  Modelled from the spec: \<^verbatim>\<open>checksum\<close> of the missing module: the characters at
  odd positions (counted from 1) go through
  the odd table, those at even positions through the even table; the sum modulo 26 is
  mapped to a letter, A for 0 up to Z for 25.
\<close>

fun table_sum :: "ref_data \<Rightarrow> nat \<Rightarrow> string \<Rightarrow> nat" where
  "table_sum R i [] = 0"
| "table_sum R i (c # cs) =
     (if odd i then odd_table R c else even_table R c) + table_sum R (Suc i) cs"

definition checksum :: "ref_data \<Rightarrow> string \<Rightarrow> char" where
  "checksum R core = ''ABCDEFGHIJKLMNOPQRSTUVWXYZ'' ! (table_sum R 1 core mod 26)"

subsection \<open>Validator\<close>

text \<open>Modelled from the spec: the character set of a fiscal code, A to Z and 0 to 9.\<close>

definition is_alnum :: "char \<Rightarrow> bool" where
  "is_alnum c = (is_upper c \<or> is_digit c)"

text \<open>
  Modelled from the spec: \<^verbatim>\<open>validate_fiscal_code\<close> of the missing module: the
  shape is checked first (length 16, characters of A to Z and
  0 to 9, a month letter at position 9), then the check character.
\<close>

definition shape_valid :: "string \<Rightarrow> bool" where
  "shape_valid c = (length c = 16 \<and> list_all is_alnum c \<and> c ! 8 \<in> set month_letters)"

definition validate_fiscal_code :: "ref_data \<Rightarrow> string \<Rightarrow> error + unit" where
  "validate_fiscal_code R c =
     (if \<not> shape_valid c then Inl InvalidFormatError
      else if c ! 15 \<noteq> checksum R (take 15 c) then Inl ChecksumMismatchError
      else Inr ())"

subsection \<open>Omocodia Resolver\<close>

text \<open>
  Modelled from the spec: the omocodia table of the missing resolver, 0 to L, 1 to M,
  2 to N, 3 to P, 4 to Q, 5 to R, 6 to S, 7 to T, 8 to U, 9 to V.
\<close>

definition omocodia :: "char \<Rightarrow> char" where
  "omocodia c = (case map_of (zip ''0123456789'' ''LMNPQRSTUV'') c of None \<Rightarrow> c | Some l \<Rightarrow> l)"

text \<open>
  Modelled from the spec: the scan of the missing resolver, the first digit found when
  the core is scanned from its last position down, and the number of digits of the
  core.
\<close>

definition last_digit_pos :: "string \<Rightarrow> nat option" where
  "last_digit_pos core = find (\<lambda>i. is_digit (core ! i)) (rev [0..<length core])"

definition digit_count :: "string \<Rightarrow> nat" where
  "digit_count c = length (filter is_digit (take 15 c))"

text \<open>Facts the termination of the resolver rests on.\<close>

lemma omocodia_not_digit: "is_digit c \<Longrightarrow> \<not> is_digit (omocodia c)"
  by (auto simp: is_digit_def omocodia_def)

lemma find_SomeD: "find P xs = Some x \<Longrightarrow> x \<in> set xs \<and> P x"
  by (induction xs) (auto split: if_splits)

lemma last_digit_pos_Some:
  "last_digit_pos core = Some i \<Longrightarrow> i < length core \<and> is_digit (core ! i)"
  unfolding last_digit_pos_def by (drule find_SomeD) simp

lemma last_digit_pos_None:
  "last_digit_pos core = None \<Longrightarrow> filter is_digit core = []"
  unfolding last_digit_pos_def
  by (auto simp: find_None_iff filter_empty_conv in_set_conv_nth)

lemma filter_update_count:
  "i < length xs \<Longrightarrow> P (xs ! i) \<Longrightarrow> \<not> P y \<Longrightarrow>
   Suc (length (filter P (xs[i := y]))) = length (filter P xs)"
proof (induction xs arbitrary: i)
  case Nil
  then show ?case by simp
next
  case (Cons x xs)
  show ?case
  proof (cases i)
    case 0
    with Cons.prems show ?thesis by simp
  next
    case (Suc j)
    with Cons.prems have "Suc (length (filter P (xs[j := y]))) = length (filter P xs)"
      by (intro Cons.IH) auto
    with Suc show ?thesis by simp
  qed
qed

lemma checksum_upper: "is_upper (checksum R core)"
proof -
  have "table_sum R 1 core mod 26 < length ''ABCDEFGHIJKLMNOPQRSTUVWXYZ''" by simp
  then have "''ABCDEFGHIJKLMNOPQRSTUVWXYZ'' ! (table_sum R 1 core mod 26)
      \<in> set ''ABCDEFGHIJKLMNOPQRSTUVWXYZ''"
    by (rule nth_mem)
  then show ?thesis unfolding checksum_def is_upper_def .
qed

lemma upper_not_digit: "is_upper c \<Longrightarrow> \<not> is_digit c"
  by (auto simp: is_upper_def is_digit_def)

text \<open>
  Modelled from the spec: one round of the resolver. The 15-character core is scanned
  from position 15 down to position 1, the first digit found is replaced through the
  omocodia table and the checksum is recomputed; there is no result when the core holds
  no digit.
\<close>

definition substitute_digit :: "ref_data \<Rightarrow> string \<Rightarrow> string option" where
  "substitute_digit R c =
     (let core = take 15 c in
      case last_digit_pos core of
        None \<Rightarrow> None
      | Some i \<Rightarrow>
          (let core' = core[i := omocodia (core ! i)] in Some (core' @ [checksum R core'])))"

lemma substitute_digit_count:
  assumes "substitute_digit R c = Some c'"
  shows "Suc (digit_count c') = digit_count c"
proof -
  define core where "core = take 15 c"
  from assms obtain i where pos: "last_digit_pos core = Some i"
    and c': "c' = core[i := omocodia (core ! i)] @ [checksum R (core[i := omocodia (core ! i)])]"
    by (auto simp: substitute_digit_def Let_def core_def split: option.splits)
  let ?core' = "core[i := omocodia (core ! i)]"
  from last_digit_pos_Some [OF pos] have i: "i < length core" "is_digit (core ! i)" by auto
  have len: "length ?core' \<le> 15" by (simp add: core_def)
  have "filter is_digit (take (15 - length ?core') [checksum R ?core']) = []"
    using upper_not_digit [OF checksum_upper, of R ?core']
    by (cases "15 - length ?core'") auto
  with len have "digit_count c' = length (filter is_digit ?core')"
    by (simp add: digit_count_def c')
  moreover have "Suc (length (filter is_digit ?core')) = length (filter is_digit core)"
    using i omocodia_not_digit by (intro filter_update_count) auto
  ultimately show ?thesis by (simp add: digit_count_def core_def)
qed

text \<open>
  Modelled from the spec: \<^verbatim>\<open>disambiguate\<close> of the missing module. A candidate
  that is not taken is returned unchanged. Otherwise
  a digit is substituted and membership is tested again, round after round, until the
  code is free; when no digit is left and the code is still taken, the result is
  \<open>CodeSpaceExhaustedError\<close>. Every round removes one digit from the core.
\<close>

function disambiguate :: "ref_data \<Rightarrow> (string \<Rightarrow> bool) \<Rightarrow> string \<Rightarrow> error + string" where
  "disambiguate R is_taken candidate =
     (if \<not> is_taken candidate then Inr candidate
      else
        (case substitute_digit R candidate of
           None \<Rightarrow> Inl CodeSpaceExhaustedError
         | Some next_candidate \<Rightarrow> disambiguate R is_taken next_candidate))"
  by pat_completeness auto
termination
proof (relation "measure (\<lambda>(R, is_taken, candidate). digit_count candidate)")
  show "wf (measure (\<lambda>(R, is_taken, candidate). digit_count candidate))" by simp
next
  fix R :: ref_data and is_taken :: "string \<Rightarrow> bool" and candidate next_candidate :: string
  assume "substitute_digit R candidate = Some next_candidate"
  from substitute_digit_count [OF this]
  show "((R, is_taken, next_candidate), (R, is_taken, candidate))
      \<in> measure (\<lambda>(R, is_taken, candidate). digit_count candidate)"
    by simp
qed

declare disambiguate.simps [simp del]

text \<open>The code after \<open>k\<close> rounds of substitution, if the core has that many digits.\<close>

fun after_substitutions :: "ref_data \<Rightarrow> nat \<Rightarrow> string \<Rightarrow> string option" where
  "after_substitutions R 0 c = Some c"
| "after_substitutions R (Suc k) c =
     (case substitute_digit R c of None \<Rightarrow> None | Some c' \<Rightarrow> after_substitutions R k c')"

text \<open>
  Modelled from the spec: the positional layout of a fiscal code. Characters 1 to 6 (the
  name codes), 9 (the month letter) and 12 (the letter of the place code) are not
  digits.
\<close>

definition code_layout :: "string \<Rightarrow> bool" where
  "code_layout c =
     (length c = 16 \<and> list_all (\<lambda>i. \<not> is_digit (c ! i)) [0, 1, 2, 3, 4, 5, 8, 11])"

subsection \<open>Entry point\<close>

text \<open>
  Modelled from the spec: \<^verbatim>\<open>compute_fiscal_code\<close> of the missing module: the
  composer builds the core, the checksum calculator appends
  the check character, and the resolver runs when the caller supplies the membership
  test; without it the candidate is returned as it is.
\<close>

definition compute_fiscal_code ::
    "ref_data \<Rightarrow> date \<Rightarrow> (string \<Rightarrow> bool) option \<Rightarrow>
     string \<Rightarrow> string \<Rightarrow> sex \<Rightarrow> date \<Rightarrow> string \<Rightarrow> bool \<Rightarrow> error + string" where
  "compute_fiscal_code R today hook surname given sx born place foreign =
     bind_exn
       (compose R today
          \<lparr>last_name = surname, first_name = given, sex = sx, birth_date = born,
           birth_place = place, is_foreign_birth = foreign\<rparr>)
       (\<lambda>core.
          let candidate = core @ [checksum R core] in
          case hook of
            None \<Rightarrow> Inr candidate
          | Some is_taken \<Rightarrow> disambiguate R is_taken candidate)"

subsection \<open>Sample reference data\<close>

text \<open>
  Reference data for the worked examples: the values of the official odd and even
  tables, and a place table of two entries.
\<close>

definition sample_odd :: "char \<Rightarrow> nat" where
  "sample_odd c =
     (case map_of (zip ''0123456789ABCDEFGHIJKLMNOPQRSTUVWXYZ''
            [1, 0, 5, 7, 9, 13, 15, 17, 19, 21,
             1, 0, 5, 7, 9, 13, 15, 17, 19, 21, 2, 4, 18, 20, 11, 3, 6, 8, 12, 14, 16, 10,
             22, 25, 24, 23]) c of
        None \<Rightarrow> 0
      | Some v \<Rightarrow> v)"

definition sample_even :: "char \<Rightarrow> nat" where
  "sample_even c =
     (case map_of (zip ''0123456789ABCDEFGHIJKLMNOPQRSTUVWXYZ''
            [0, 1, 2, 3, 4, 5, 6, 7, 8, 9,
             0, 1, 2, 3, 4, 5, 6, 7, 8, 9, 10, 11, 12, 13, 14, 15, 16, 17, 18, 19, 20, 21,
             22, 23, 24, 25]) c of
        None \<Rightarrow> 0
      | Some v \<Rightarrow> v)"

definition sample_ref :: ref_data where
  "sample_ref =
     \<lparr>strip_diacritics = (\<lambda>s. s), odd_table = sample_odd, even_table = sample_even,
      place_table =
        [\<lparr>entry_name = ''Roma'', entry_code = ''H501'', entry_kind = Municipality\<rparr>,
         \<lparr>entry_name = ''Francia'', entry_code = ''Z110'', entry_kind = ForeignCountry\<rparr>]\<rparr>"

subsection \<open>Sample requests\<close>

text \<open>Requests and surroundings for the worked examples.\<close>

definition sample_body :: "(string \<times> json) list" where
  "sample_body =
     [(''last_name'', JStr ''Rossi''), (''first_name'', JStr ''Mario''),
      (''gender'', JStr ''M''), (''birth_date'', JStr ''1980-01-15''),
      (''birth_place'', JStr ''Roma'')]"

text \<open>A stand-in for \<^verbatim>\<open>calculate_fiscal_code\<close> that always returns the same code.\<close>

definition sample_calculate :: calculate where
  "sample_calculate l f g b p = Inr (JStr ''RSSMRA80A15H501I'')"

definition sample_form :: "(string \<times> string) list" where
  "sample_form =
     [(''last_name'', ''Rossi''), (''first_name'', ''Mario''), (''gender'', ''M''),
      (''birth_place'', ''Roma''), (''province'', ''RM''), (''birth_date'', ''1980-01-15''),
      (''permit_number'', ''P1''), (''permit_date'', ''''),
      (''health_card'', ''''), (''health_card_expiry'', ''''), (''entry_date'', ''''),
      (''room_number'', ''12''), (''floor'', ''1''), (''family_relations'', ''''),
      (''fiscal_code'', ''abc''), (''country_code'', '''')]"

text \<open>A clock, and a storage layer that accepts every row.\<close>

definition sample_env :: env where
  "sample_env =
     \<lparr>now = \<lparr>year = 2024, month = 6, day = 1\<rparr>, db_check = (\<lambda>r. None),
      db_delete = (\<lambda>i. None)\<rparr>"

definition sample_world :: world where
  "sample_world = \<lparr>session = [], flashes = [], guests = [], custom_fields = []\<rparr>"

section \<open>Properties of the fiscal code endpoint\<close>





lemma calc_fiscal_code_cases:
  "(\<exists>code. calc_fiscal_code c (JObj d) = Inr (Jsonify (JObj [(''fiscal_code'', code)])))
   \<or> (\<exists>msg. calc_fiscal_code c (JObj d) = Inr (Jsonify (JObj [(''error'', JStr msg)])))"
  by (simp add: calc_fiscal_code_def Let_def missing_data_def split: sum.splits)

lemma calc_fiscal_code_cong:
  assumes "\<And>k. k \<in> set request_fields \<Longrightarrow> map_of d k = map_of d' k"
  shows "calc_fiscal_code c (JObj d) = calc_fiscal_code c (JObj d')"
proof -
  have "dict_get d k x = dict_get d' k x"
    if "k \<in> set request_fields" for k x
    using assms [OF that] by (simp add: dict_get_def)
  then show ?thesis
    by (simp add: calc_fiscal_code_def request_fields_def)
qed

text \<open>
  Claim C4, amended. The entry point takes five inputs, the values of \<^verbatim>\<open>last_name\<close>,
  \<^verbatim>\<open>first_name\<close>, \<^verbatim>\<open>gender\<close>, \<^verbatim>\<open>birth_date\<close> and \<^verbatim>\<open>birth_place\<close> in
  the JSON object of the request; there is no input \<^verbatim>\<open>is_foreign_birth\<close>. For every
  JSON object it answers with an object that holds either \<^verbatim>\<open>fiscal_code\<close> or
  \<^verbatim>\<open>error\<close>, and two bodies that agree on the five keys get the same answer.
\<close>

theorem five_inputs:
  "((\<exists>code. calc_fiscal_code c (JObj d) = Inr (Jsonify (JObj [(''fiscal_code'', code)])))
    \<or> (\<exists>msg. calc_fiscal_code c (JObj d) = Inr (Jsonify (JObj [(''error'', JStr msg)]))))
   \<and> ((\<forall>k \<in> set request_fields. map_of d k = map_of d' k)
        \<longrightarrow> calc_fiscal_code c (JObj d) = calc_fiscal_code c (JObj d'))"
  using calc_fiscal_code_cases [of c d] calc_fiscal_code_cong [of d d' c] by blast

theorem five_inputs_witness:
  "calc_fiscal_code sample_calculate (JObj ((''is_foreign_birth'', JBool True) # sample_body))
   = calc_fiscal_code sample_calculate (JObj sample_body)
   \<and> calc_fiscal_code sample_calculate (JObj sample_body)
     = Inr (Jsonify (JObj [(''fiscal_code'', JStr ''RSSMRA80A15H501I'')]))"
proof -
  have "calc_fiscal_code sample_calculate (JObj sample_body)
     = Inr (Jsonify (JObj [(''fiscal_code'', JStr ''RSSMRA80A15H501I'')]))"
    by code_simp
  with five_inputs [of sample_calculate "(''is_foreign_birth'', JBool True) # sample_body"
      sample_body]
  show ?thesis by (simp add: request_fields_def)
qed

text \<open>
  Claim C4 as stated counts \<^verbatim>\<open>is_foreign_birth\<close> among the inputs. Whatever
  \<^verbatim>\<open>calculate_fiscal_code\<close> does, the answer to a request is the same with
  \<^verbatim>\<open>is_foreign_birth\<close> true and false.
\<close>

theorem sixth_input_ignored:
  "\<forall>c. calc_fiscal_code c (JObj ((''is_foreign_birth'', JBool True) # sample_body))
      = calc_fiscal_code c (JObj ((''is_foreign_birth'', JBool False) # sample_body))"
  by (simp add: calc_fiscal_code_def dict_get_def sample_body_def)

text \<open>
  Claim C3, amended. When every one of the five fields is present and not empty, a
  failure of the computation, be it a birth date that does not parse or an exception
  raised by \<^verbatim>\<open>calculate_fiscal_code\<close>, is caught by the handler and answered with
  the JSON object that holds the exception's message under \<^verbatim>\<open>error\<close>. Only the
  message is reported, not the kind of the error; no fiscal code is returned.
\<close>

theorem failure_is_message:
  assumes "py_all [dict_get d ''last_name'' (JStr ''''), dict_get d ''first_name'' (JStr ''''),
           dict_get d ''gender'' (JStr ''''), dict_get d ''birth_date'' (JStr ''''),
           dict_get d ''birth_place'' (JStr '''')]"
  shows "(strptime_obj (dict_get d ''birth_date'' (JStr '''')) = Inl e \<longrightarrow>
            calc_fiscal_code c (JObj d) = Inr (Jsonify (JObj [(''error'', JStr (exn_str e))])))
       \<and> (strptime_obj (dict_get d ''birth_date'' (JStr '''')) = Inr bd \<and>
          c (dict_get d ''last_name'' (JStr '''')) (dict_get d ''first_name'' (JStr ''''))
            (dict_get d ''gender'' (JStr '''')) bd (dict_get d ''birth_place'' (JStr '''')) = Inl e \<longrightarrow>
            calc_fiscal_code c (JObj d) = Inr (Jsonify (JObj [(''error'', JStr (exn_str e))])))"
  using assms by (simp add: calc_fiscal_code_def Let_def)

theorem failure_is_message_witness:
  "calc_fiscal_code sample_calculate
     (JObj [(''last_name'', JStr ''Rossi''), (''first_name'', JStr ''Mario''),
            (''gender'', JStr ''M''), (''birth_date'', JStr ''1980-02-30''),
            (''birth_place'', JStr ''Roma'')])
   = Inr (Jsonify (JObj [(''error'', JStr ''day is out of range for month'')]))"
proof -
  let ?d = "[(''last_name'', JStr ''Rossi''), (''first_name'', JStr ''Mario''),
            (''gender'', JStr ''M''), (''birth_date'', JStr ''1980-02-30''),
            (''birth_place'', JStr ''Roma'')]"
  have a: "py_all [dict_get ?d ''last_name'' (JStr ''''), dict_get ?d ''first_name'' (JStr ''''),
           dict_get ?d ''gender'' (JStr ''''), dict_get ?d ''birth_date'' (JStr ''''),
           dict_get ?d ''birth_place'' (JStr '''')]"
    by (simp add: py_all_def dict_get_def)
  have s: "strptime_obj (dict_get ?d ''birth_date'' (JStr ''''))
      = Inl (PyExn ''ValueError'' ''day is out of range for month'')"
    by code_simp
  from failure_is_message [OF a, of "PyExn ''ValueError'' ''day is out of range for month''"
      sample_calculate] s
  show ?thesis by simp
qed

text \<open>
  Claim C3 as stated promises typed error kinds and no generic exceptions. A birth date
  in the wrong format raises the standard library's \<^verbatim>\<open>ValueError\<close>, whose message
  is what the caller gets; and two failures of different kinds with the same message
  get the same answer.
\<close>

theorem typed_error_counterexample:
  "strptime ''15/01/1980''
     = Inl (PyExn ''ValueError''
         (''time data '' @ py_repr ''15/01/1980'' @ '' does not match format ''
            @ py_repr ''%Y-%m-%d''))
   \<and> (\<forall>c. calc_fiscal_code c
         (JObj [(''last_name'', JStr ''Rossi''), (''first_name'', JStr ''Mario''),
                (''gender'', JStr ''M''), (''birth_date'', JStr ''15/01/1980''),
                (''birth_place'', JStr ''Roma'')])
       = Inr (Jsonify (JObj [(''error'',
           JStr (''time data '' @ py_repr ''15/01/1980'' @ '' does not match format ''
            @ py_repr ''%Y-%m-%d''))])))
   \<and> calc_fiscal_code (\<lambda>l f g b p. Inl (PyExn ''EmptyNameError'' ''invalid input''))
         (JObj sample_body)
     = calc_fiscal_code (\<lambda>l f g b p. Inl (PyExn ''UnknownPlaceError'' ''invalid input''))
         (JObj sample_body)"
proof -
  have s: "strptime ''15/01/1980''
     = Inl (PyExn ''ValueError''
         (''time data '' @ py_repr ''15/01/1980'' @ '' does not match format ''
            @ py_repr ''%Y-%m-%d''))"
    by code_simp
  have ok: "strptime ''1980-01-15'' = Inr \<lparr>year = 1980, month = 1, day = 15\<rparr>"
    by code_simp
  show ?thesis
    using s ok
    by (simp add: calc_fiscal_code_def dict_get_def py_all_def strptime_obj_def sample_body_def
        del: append.simps)
qed

section \<open>Properties of the routes\<close>

lemma guest_routes_not_options:
  "ep \<in> {Route_dashboard, Route_new_guest, Route_archive, Route_guest_detail guest_id,
          Route_edit_guest guest_id, Route_delete_guest guest_id}
   \<Longrightarrow> m \<in> set (route_methods ep) \<Longrightarrow> m \<noteq> ''OPTIONS''"
  by (auto simp: route_methods_def)

lemma guest_routes_decorated:
  "ep \<in> {Route_dashboard, Route_new_guest, Route_archive, Route_guest_detail guest_id,
          Route_edit_guest guest_id, Route_delete_guest guest_id}
   \<Longrightarrow> \<not> in_session ''logged_in'' w
   \<Longrightarrow> view_function E c B ep req w
       = (Inr (Redirect ''login''), flash ''Accesso richiesto'' ''danger'' w)"
  by (auto simp: login_required_def)

text \<open>
  Claim C10, amended. For a request whose method the route accepts, each of the guest routes
  (\<^verbatim>\<open>dashboard\<close>, \<^verbatim>\<open>new_guest\<close>, \<^verbatim>\<open>archive\<close>, \<^verbatim>\<open>guest_detail\<close>,
  \<^verbatim>\<open>edit_guest\<close>, \<^verbatim>\<open>delete_guest\<close>) answers with a redirect to the login page, and
  flashes a message, whenever \<^verbatim>\<open>logged_in\<close> is not in the session; the fiscal code
  endpoint runs its handler on every \<^verbatim>\<open>POST\<close> request whatever the session holds, and
  leaves the session as it is. A request with any other method is answered by the framework:
  \<^verbatim>\<open>OPTIONS\<close> with the list of methods, the rest with \<^verbatim>\<open>405 Method Not Allowed\<close>,
  on every route and whatever the session holds.
\<close>

theorem crud_routes_require_login:
  "(ep \<in> {Route_dashboard, Route_new_guest, Route_archive, Route_guest_detail guest_id,
           Route_edit_guest guest_id, Route_delete_guest guest_id}
      \<and> http_method req \<in> set (route_methods ep) \<and> \<not> in_session ''logged_in'' w \<longrightarrow>
      app_route E c B ep req w
        = (Inr (Redirect ''login''), flash ''Accesso richiesto'' ''danger'' w))
   \<and> (http_method req = ''POST'' \<longrightarrow>
      app_route E c B Route_calc_fiscal_code req w = (calc_fiscal_code c (json_body req), w))
   \<and> (http_method req \<notin> set (route_methods ep) \<and> http_method req \<noteq> ''OPTIONS'' \<longrightarrow>
      app_route E c B ep req w = (Inr MethodNotAllowed, w))
   \<and> (http_method req = ''OPTIONS'' \<longrightarrow> app_route E c B ep req w = (Inr AutomaticOptions, w))"
proof (intro conjI impI)
  assume a: "ep \<in> {Route_dashboard, Route_new_guest, Route_archive, Route_guest_detail guest_id,
           Route_edit_guest guest_id, Route_delete_guest guest_id}
      \<and> http_method req \<in> set (route_methods ep) \<and> \<not> in_session ''logged_in'' w"
  with guest_routes_not_options [of ep guest_id "http_method req"]
  have "http_method req \<noteq> ''OPTIONS''" by blast
  with a guest_routes_decorated [of ep guest_id w E c B req]
  show "app_route E c B ep req w
        = (Inr (Redirect ''login''), flash ''Accesso richiesto'' ''danger'' w)"
    by (simp add: app_route_def)
next
  assume "http_method req = ''POST''"
  then show "app_route E c B Route_calc_fiscal_code req w
      = (calc_fiscal_code c (json_body req), w)"
    by (simp add: app_route_def route_methods_def calc_fiscal_code_view_def)
next
  assume "http_method req \<notin> set (route_methods ep) \<and> http_method req \<noteq> ''OPTIONS''"
  then show "app_route E c B ep req w = (Inr MethodNotAllowed, w)"
    by (simp add: app_route_def)
next
  assume "http_method req = ''OPTIONS''"
  then show "app_route E c B ep req w = (Inr AutomaticOptions, w)"
    by (simp add: app_route_def)
qed

theorem crud_routes_require_login_witness:
  "(\<forall>B. app_route sample_env sample_calculate B (Route_edit_guest 1)
        \<lparr>http_method = ''POST'', form = sample_form, json_body = JNull\<rparr> sample_world
      = (Inr (Redirect ''login''), flash ''Accesso richiesto'' ''danger'' sample_world))
   \<and> (\<forall>B. app_route sample_env sample_calculate B Route_calc_fiscal_code
        \<lparr>http_method = ''POST'', form = [], json_body = JObj sample_body\<rparr> sample_world
      = (Inr (Jsonify (JObj [(''fiscal_code'', JStr ''RSSMRA80A15H501I'')])), sample_world))"
proof -
  have a: "\<not> in_session ''logged_in'' sample_world"
    by (simp add: in_session_def sample_world_def)
  have b: "calc_fiscal_code sample_calculate (JObj sample_body)
      = Inr (Jsonify (JObj [(''fiscal_code'', JStr ''RSSMRA80A15H501I'')]))"
    by code_simp
  show ?thesis
  proof (intro conjI allI)
    fix B
    show "app_route sample_env sample_calculate B (Route_edit_guest 1)
        \<lparr>http_method = ''POST'', form = sample_form, json_body = JNull\<rparr> sample_world
      = (Inr (Redirect ''login''), flash ''Accesso richiesto'' ''danger'' sample_world)"
      using crud_routes_require_login [of "Route_edit_guest 1" 1
          "\<lparr>http_method = ''POST'', form = sample_form, json_body = JNull\<rparr>" sample_world
          sample_env sample_calculate B] a
      by (simp add: route_methods_def)
  next
    fix B
    show "app_route sample_env sample_calculate B Route_calc_fiscal_code
        \<lparr>http_method = ''POST'', form = [], json_body = JObj sample_body\<rparr> sample_world
      = (Inr (Jsonify (JObj [(''fiscal_code'', JStr ''RSSMRA80A15H501I'')])), sample_world)"
      using crud_routes_require_login [of Route_calc_fiscal_code 1
          "\<lparr>http_method = ''POST'', form = [], json_body = JObj sample_body\<rparr>" sample_world
          sample_env sample_calculate B] b
      by simp
  qed
qed

text \<open>
  Claim C10 as stated has the guest routes redirect, and the fiscal code endpoint run its
  handler, for every request. A \<^verbatim>\<open>GET\<close> request without a login to
  \<^verbatim>\<open>/guest/1/delete\<close>, a route declared with \<^verbatim>\<open>methods=['POST']\<close>, is not
  redirected to the login page, and a \<^verbatim>\<open>GET\<close> request to
  \<^verbatim>\<open>/calculate_fiscal_code\<close> does not reach the handler: both are answered
  \<^verbatim>\<open>405 Method Not Allowed\<close>.
\<close>

theorem method_not_allowed_counterexample:
  "\<not> in_session ''logged_in'' sample_world
   \<and> (\<forall>B. app_route sample_env sample_calculate B (Route_delete_guest 1)
        \<lparr>http_method = ''GET'', form = [], json_body = JNull\<rparr> sample_world
      = (Inr MethodNotAllowed, sample_world))
   \<and> (\<forall>B. app_route sample_env sample_calculate B Route_calc_fiscal_code
        \<lparr>http_method = ''GET'', form = [], json_body = JObj sample_body\<rparr> sample_world
      = (Inr MethodNotAllowed, sample_world))"
  by (simp add: app_route_def route_methods_def in_session_def sample_world_def)

section \<open>Properties of the guest handlers\<close>

lemma bind_exn_Inr:
  "bind_exn m f = Inr y \<Longrightarrow> \<exists>x. m = Inr x \<and> f x = Inr y"
  by (cases m) (simp_all add: bind_exn_def)

lemma text_of_Inr: "text_of f k = Inr v \<Longrightarrow> \<exists>x. map_of f k = Some x \<and> v = Text x"
  by (auto simp: text_of_def form_item_def bind_exn_def split: option.splits)

lemma eval_columns_append:
  "eval_columns (a @ b) =
     bind_exn (eval_columns a) (\<lambda>ra. bind_exn (eval_columns b) (\<lambda>rb. Inr (ra @ rb)))"
proof (induction a)
  case Nil
  then show ?case by (simp add: bind_exn_def split: sum.splits)
next
  case (Cons x a)
  obtain k c where x: "x = (k, c)" by (cases x)
  show ?case unfolding x
    by (cases c; cases "eval_columns a"; cases "eval_columns b")
      (simp_all add: Cons.IH bind_exn_def)
qed

lemma eval_columns_keys: "eval_columns cs = Inr g \<Longrightarrow> map fst g = map fst cs"
proof (induction cs arbitrary: g)
  case Nil
  then show ?case by simp
next
  case (Cons x cs)
  obtain k c where x: "x = (k, c)" by (cases x)
  from Cons.prems obtain v r where "eval_columns cs = Inr r" "g = (k, v) # r"
    unfolding x by (auto dest!: bind_exn_Inr)
  with Cons.IH [of r] x show ?case by simp
qed

lemma map_of_middle:
  assumes "k \<notin> set (map fst pre)"
  shows "map_of (pre @ [(k, a)] @ post) = (map_of (pre @ [(k, b)] @ post))(k \<mapsto> a)"
proof
  fix x
  from assms have "map_of pre k = None" by (simp add: map_of_eq_None_iff)
  then show "map_of (pre @ [(k, a)] @ post) x = ((map_of (pre @ [(k, b)] @ post))(k \<mapsto> a)) x"
    by (cases "map_of pre x") (auto simp: map_add_def)
qed

text \<open>The form is read through its keys only.\<close>

lemma form_reads:
  assumes "map_of f' k = map_of f k"
  shows "form_item f' k = form_item f k" "form_get f' k = form_get f k"
    "text_of f' k = text_of f k" "date_of f' k = date_of f k"
    "expiry_of f' k = expiry_of f k" "assign_date_if f' k = assign_date_if f k"
proof -
  show a: "form_item f' k = form_item f k" using assms by (simp add: form_item_def)
  show "form_get f' k = form_get f k" using assms by (simp add: form_get_def)
  show "text_of f' k = text_of f k" using a by (simp add: text_of_def)
  show b: "date_of f' k = date_of f k" using a by (simp add: date_of_def)
  show "expiry_of f' k = expiry_of f k" using a by (simp add: expiry_of_def)
  show "assign_date_if f' k = assign_date_if f k"
    using a b by (intro ext) (simp add: assign_date_if_def cong: if_cong)
qed

lemma text_of_entered:
  "map_of f' = (map_of f)(k \<mapsto> v) \<Longrightarrow> text_of f' k = Inr (Text v)"
  by (simp add: text_of_def form_item_def bind_exn_def)

lemma new_guest_columns_split:
  "new_guest_columns clock f =
     take 17 (new_guest_columns clock f) @ [(''fiscal_code'', text_of f ''fiscal_code'')]
       @ [(''country_code'', text_of f ''country_code'')]"
  by (simp add: new_guest_columns_def)

lemma new_guest_columns_other:
  assumes "map_of f' = (map_of f)(''fiscal_code'' \<mapsto> v)"
  shows "take 17 (new_guest_columns clock f') = take 17 (new_guest_columns clock f)"
    and "text_of f' ''country_code'' = text_of f ''country_code''"
proof -
  have same: "map_of f' k = map_of f k" if "k \<noteq> ''fiscal_code''" for k
    using assms that by simp
  show "take 17 (new_guest_columns clock f') = take 17 (new_guest_columns clock f)"
    by (simp add: new_guest_columns_def form_reads [OF same] cong: if_cong)
  show "text_of f' ''country_code'' = text_of f ''country_code''"
    by (simp add: form_reads [OF same])
qed

lemma new_guest_row_any_text:
  assumes g: "eval_columns (new_guest_columns clock f) = Inr g"
    and f': "map_of f' = (map_of f)(''fiscal_code'' \<mapsto> v)"
  shows "\<exists>g'. eval_columns (new_guest_columns clock f') = Inr g'
    \<and> map_of g' = (map_of g)(''fiscal_code'' \<mapsto> Text v)"
proof -
  let ?pre = "take 17 (new_guest_columns clock f)"
  let ?cc = "[(''country_code'', text_of f ''country_code'')]"
  from g have "eval_columns (?pre @ [(''fiscal_code'', text_of f ''fiscal_code'')] @ ?cc) = Inr g"
    by (subst (asm) new_guest_columns_split) simp
  then obtain rp x rc where rp: "eval_columns ?pre = Inr rp"
    and x: "text_of f ''fiscal_code'' = Inr x"
    and rc: "text_of f ''country_code'' = Inr rc"
    and gg: "g = rp @ [(''fiscal_code'', x)] @ [(''country_code'', rc)]"
    by (auto simp: eval_columns_append dest!: bind_exn_Inr)
  have "new_guest_columns clock f' =
      ?pre @ [(''fiscal_code'', Inr (Text v))] @ ?cc"
    by (subst new_guest_columns_split)
      (simp add: new_guest_columns_other [OF f'] text_of_entered [OF f'])
  then have e: "eval_columns (new_guest_columns clock f')
      = Inr (rp @ [(''fiscal_code'', Text v)] @ [(''country_code'', rc)])"
    using rp rc by (simp add: eval_columns_append bind_exn_def)
  have "map fst rp = map fst ?pre" using rp by (rule eval_columns_keys)
  also have "\<dots> = take 17 (map fst (new_guest_columns clock f))" by (simp add: take_map)
  finally have "''fiscal_code'' \<notin> set (map fst rp)"
    by (simp add: new_guest_columns_def)
  from map_of_middle [OF this] e gg show ?thesis by blast
qed

lemma apply_updates_append:
  "apply_updates (us @ vs) g = bind_exn (apply_updates us g) (apply_updates vs)"
  by (induction us arbitrary: g) (auto simp: bind_exn_def split: sum.splits)

lemma map_of_set_attr: "map_of (set_attr k v g) k' = (if k' = k then Some v else map_of g k')"
  by (induction g) auto

lemma assign_Inr: "assign k c g = Inr g' \<Longrightarrow> \<exists>v. c = Inr v \<and> g' = set_attr k v g"
  by (auto simp: assign_def dest!: bind_exn_Inr)

lemma edit_guest_updates_split:
  "edit_guest_updates f = take 16 (edit_guest_updates f)
     @ [assign ''fiscal_code'' (text_of f ''fiscal_code''),
        assign ''country_code'' (text_of f ''country_code'')]"
  by (simp add: edit_guest_updates_def)

lemma edit_guest_updates_other:
  assumes "map_of f' = (map_of f)(''fiscal_code'' \<mapsto> v)"
  shows "take 16 (edit_guest_updates f') = take 16 (edit_guest_updates f)"
proof -
  have same: "map_of f' k = map_of f k" if "k \<noteq> ''fiscal_code''" for k
    using assms that by simp
  show ?thesis
    by (simp add: edit_guest_updates_def form_reads [OF same] cong: if_cong)
qed

lemma edit_guest_row_parts:
  assumes "apply_updates (edit_guest_updates f) g0 = Inr g"
  obtains g1 x rc where "apply_updates (take 16 (edit_guest_updates f)) g0 = Inr g1"
    "text_of f ''fiscal_code'' = Inr x" "text_of f ''country_code'' = Inr rc"
    "g = set_attr ''country_code'' rc (set_attr ''fiscal_code'' x g1)"
proof -
  from assms have "bind_exn (apply_updates (take 16 (edit_guest_updates f)) g0)
      (apply_updates [assign ''fiscal_code'' (text_of f ''fiscal_code''),
        assign ''country_code'' (text_of f ''country_code'')]) = Inr g"
    by (subst (asm) edit_guest_updates_split) (simp only: apply_updates_append)
  then obtain g1 where g1: "apply_updates (take 16 (edit_guest_updates f)) g0 = Inr g1"
    and "apply_updates [assign ''fiscal_code'' (text_of f ''fiscal_code''),
        assign ''country_code'' (text_of f ''country_code'')] g1 = Inr g"
    by (auto dest!: bind_exn_Inr)
  then obtain g2 where a: "assign ''fiscal_code'' (text_of f ''fiscal_code'') g1 = Inr g2"
    and b: "assign ''country_code'' (text_of f ''country_code'') g2 = Inr g"
    by (auto dest!: bind_exn_Inr)
  from assign_Inr [OF a] assign_Inr [OF b] g1 that show ?thesis by blast
qed

lemma edit_guest_row_fiscal_code:
  assumes "apply_updates (edit_guest_updates f) g0 = Inr g"
  shows "\<exists>v. map_of f ''fiscal_code'' = Some v \<and> map_of g ''fiscal_code'' = Some (Text v)"
proof -
  from assms obtain g1 x rc where x: "text_of f ''fiscal_code'' = Inr x"
    and g: "g = set_attr ''country_code'' rc (set_attr ''fiscal_code'' x g1)"
    by (rule edit_guest_row_parts)
  from g have "map_of g ''fiscal_code'' = Some x" by (simp add: map_of_set_attr)
  with text_of_Inr [OF x] show ?thesis by blast
qed

lemma edit_guest_row_any_text:
  assumes g: "apply_updates (edit_guest_updates f) g0 = Inr g"
    and f': "map_of f' = (map_of f)(''fiscal_code'' \<mapsto> v)"
  shows "\<exists>g'. apply_updates (edit_guest_updates f') g0 = Inr g'
    \<and> map_of g' = (map_of g)(''fiscal_code'' \<mapsto> Text v)"
proof -
  from g obtain g1 x rc where g1: "apply_updates (take 16 (edit_guest_updates f)) g0 = Inr g1"
    and rc: "text_of f ''country_code'' = Inr rc"
    and gg: "g = set_attr ''country_code'' rc (set_attr ''fiscal_code'' x g1)"
    by (rule edit_guest_row_parts)
  have same: "map_of f' k = map_of f k" if "k \<noteq> ''fiscal_code''" for k
    using f' that by simp
  have "edit_guest_updates f' = take 16 (edit_guest_updates f)
     @ [assign ''fiscal_code'' (Inr (Text v)), assign ''country_code'' (Inr rc)]"
    by (subst edit_guest_updates_split)
      (simp add: edit_guest_updates_other [OF f'] text_of_entered [OF f']
        form_reads [OF same] rc)
  then have e: "apply_updates (edit_guest_updates f') g0
      = Inr (set_attr ''country_code'' rc (set_attr ''fiscal_code'' (Text v) g1))"
    using g1 by (simp add: apply_updates_append bind_exn_def assign_def)
  have "map_of (set_attr ''country_code'' rc (set_attr ''fiscal_code'' (Text v) g1))
      = (map_of g)(''fiscal_code'' \<mapsto> Text v)"
    by (rule ext) (simp add: gg map_of_set_attr)
  with e show ?thesis by blast
qed

lemma eval_columns_lookup:
  "eval_columns cs = Inr g \<Longrightarrow> map_of cs k = Some c \<Longrightarrow> \<exists>v. c = Inr v \<and> map_of g k = Some v"
proof (induction cs arbitrary: g)
  case Nil
  then show ?case by simp
next
  case (Cons a cs)
  obtain k' c' where a: "a = (k', c')" by (cases a)
  from Cons.prems(1) obtain v r where c': "c' = Inr v" and r: "eval_columns cs = Inr r"
    and g: "g = (k', v) # r"
    unfolding a by (auto dest!: bind_exn_Inr)
  show ?case
  proof (cases "k = k'")
    case True
    with Cons.prems(2) a c' g show ?thesis by simp
  next
    case False
    with Cons.prems(2) a have "map_of cs k = Some c" by simp
    from Cons.IH [OF r this] False g show ?thesis by simp
  qed
qed

lemma new_guest_row_fiscal_code:
  assumes "eval_columns (new_guest_columns clock f) = Inr g"
  shows "\<exists>v. map_of f ''fiscal_code'' = Some v \<and> map_of g ''fiscal_code'' = Some (Text v)"
proof -
  have "map_of (new_guest_columns clock f) ''fiscal_code'' = Some (text_of f ''fiscal_code'')"
    by (simp add: new_guest_columns_def)
  from eval_columns_lookup [OF assms this] text_of_Inr show ?thesis by blast
qed

lemma commit_one: "commit_rows E [g] = Inr () \<longleftrightarrow> db_check E g = None"
  by (cases "db_check E g") (simp_all add: commit_rows_def List.map_filter_simps)

lemma new_guest_stores:
  assumes "http_method req = ''POST''"
    and "eval_columns (new_guest_columns (now E) (form req)) = Inr g"
    and "db_check E g = None"
  shows "guests (snd (new_guest E req w)) = guests w @ [(fresh_id w, g)]"
  using assms commit_one [of E g]
  by (simp add: new_guest_def save_failed_def flash_def Let_def split: sum.splits)

lemma new_guest_saved:
  assumes "guests (snd (new_guest E req w)) \<noteq> guests w"
  shows "\<exists>g. eval_columns (new_guest_columns (now E) (form req)) = Inr g
     \<and> guests (snd (new_guest E req w)) = guests w @ [(fresh_id w, g)]"
  using assms
  by (auto simp: new_guest_def save_failed_def flash_def Let_def split: if_splits sum.splits)

lemma map_of_replace:
  "map_of xs k = Some x \<Longrightarrow>
   map_of (map (\<lambda>(i, r). if i = k then (i, g) else (i, r)) xs) k = Some g"
  by (induction xs) (auto split: if_splits)

lemma edit_guest_stores:
  assumes "http_method req = ''POST''" and "map_of (guests w) guest_id = Some g0"
    and "apply_updates (edit_guest_updates (form req)) g0 = Inr g"
    and "commit_rows E (g # custom_field_rows guest_id (form req)) = Inr ()"
  shows "map_of (guests (snd (edit_guest E guest_id req w))) guest_id = Some g"
  using assms map_of_replace [OF assms(2), of g]
  by (simp add: edit_guest_def flash_def Let_def)

lemma edit_guest_saved:
  assumes "fst (edit_guest E guest_id req w) = Inr (Redirect ''guest_detail'')"
  shows "\<exists>g0 g. apply_updates (edit_guest_updates (form req)) g0 = Inr g
     \<and> map_of (guests (snd (edit_guest E guest_id req w))) guest_id = Some g"
proof -
  from assms obtain g0 where g0: "map_of (guests w) guest_id = Some g0"
    by (auto simp: edit_guest_def split: option.splits)
  with assms obtain g where g: "apply_updates (edit_guest_updates (form req)) g0 = Inr g"
    and ok: "commit_rows E (g # custom_field_rows guest_id (form req)) = Inr ()"
    and p: "http_method req = ''POST''"
    by (auto simp: edit_guest_def save_failed_def Let_def split: if_splits sum.splits)
  from edit_guest_stores [OF p g0 g ok] g show ?thesis by blast
qed

text \<open>
  Claim C2, amended. No validation is applied to a fiscal code the user enters.
  Whenever \<^verbatim>\<open>new_guest\<close> adds a guest to the table, also when the custom fields that
  follow are refused, and whenever \<^verbatim>\<open>edit_guest\<close> saves a guest, the form held the
  key \<^verbatim>\<open>fiscal_code\<close> and the row that is stored holds its text, as it was entered.
  Nor does the text decide whether a guest is saved: if the handler builds a row from a
  form, it builds one from the same form with any other text under \<^verbatim>\<open>fiscal_code\<close>,
  the same row but for that column, and stores it as soon as the storage layer accepts it.
\<close>

theorem fiscal_code_stored_as_entered:
  "(guests (snd (new_guest E req w)) \<noteq> guests w \<longrightarrow>
      (\<exists>g v. guests (snd (new_guest E req w)) = guests w @ [(fresh_id w, g)]
         \<and> map_of (form req) ''fiscal_code'' = Some v
         \<and> map_of g ''fiscal_code'' = Some (Text v)))
   \<and> (fst (edit_guest E guest_id req w) = Inr (Redirect ''guest_detail'') \<longrightarrow>
      (\<exists>g v. map_of (guests (snd (edit_guest E guest_id req w))) guest_id = Some g
         \<and> map_of (form req) ''fiscal_code'' = Some v
         \<and> map_of g ''fiscal_code'' = Some (Text v)))
   \<and> (http_method req = ''POST''
       \<and> eval_columns (new_guest_columns (now E) (form req)) = Inr g
       \<and> map_of f' = (map_of (form req))(''fiscal_code'' \<mapsto> v) \<longrightarrow>
      (\<exists>g'. eval_columns (new_guest_columns (now E) f') = Inr g'
         \<and> map_of g' = (map_of g)(''fiscal_code'' \<mapsto> Text v)
         \<and> (db_check E g' = None \<longrightarrow>
              guests (snd (new_guest E (req\<lparr>form := f'\<rparr>) w))
                = guests w @ [(fresh_id w, g')])))
   \<and> (http_method req = ''POST'' \<and> map_of (guests w) guest_id = Some h0
       \<and> apply_updates (edit_guest_updates (form req)) h0 = Inr h
       \<and> map_of f' = (map_of (form req))(''fiscal_code'' \<mapsto> v) \<longrightarrow>
      (\<exists>h'. apply_updates (edit_guest_updates f') h0 = Inr h'
         \<and> map_of h' = (map_of h)(''fiscal_code'' \<mapsto> Text v)
         \<and> (commit_rows E (h' # custom_field_rows guest_id f') = Inr () \<longrightarrow>
              map_of (guests (snd (edit_guest E guest_id (req\<lparr>form := f'\<rparr>) w))) guest_id
                = Some h')))"
proof (intro conjI impI)
  assume "guests (snd (new_guest E req w)) \<noteq> guests w"
  from new_guest_saved [OF this] obtain r
    where r: "eval_columns (new_guest_columns (now E) (form req)) = Inr r"
      and s: "guests (snd (new_guest E req w)) = guests w @ [(fresh_id w, r)]"
    by (elim exE conjE)
  from new_guest_row_fiscal_code [OF r] obtain x
    where x: "map_of (form req) ''fiscal_code'' = Some x" "map_of r ''fiscal_code'' = Some (Text x)"
    by (elim exE conjE)
  from s x show "\<exists>g v. guests (snd (new_guest E req w)) = guests w @ [(fresh_id w, g)]
         \<and> map_of (form req) ''fiscal_code'' = Some v
         \<and> map_of g ''fiscal_code'' = Some (Text v)"
    by (intro exI [of _ r] exI [of _ x] conjI)
next
  assume "fst (edit_guest E guest_id req w) = Inr (Redirect ''guest_detail'')"
  from edit_guest_saved [OF this] obtain r0 r
    where r: "apply_updates (edit_guest_updates (form req)) r0 = Inr r"
      and s: "map_of (guests (snd (edit_guest E guest_id req w))) guest_id = Some r"
    by (elim exE conjE)
  from edit_guest_row_fiscal_code [OF r] obtain x
    where x: "map_of (form req) ''fiscal_code'' = Some x" "map_of r ''fiscal_code'' = Some (Text x)"
    by (elim exE conjE)
  from s x show "\<exists>g v. map_of (guests (snd (edit_guest E guest_id req w))) guest_id = Some g
         \<and> map_of (form req) ''fiscal_code'' = Some v
         \<and> map_of g ''fiscal_code'' = Some (Text v)"
    by (intro exI [of _ r] exI [of _ x] conjI)
next
  assume a: "http_method req = ''POST''
       \<and> eval_columns (new_guest_columns (now E) (form req)) = Inr g
       \<and> map_of f' = (map_of (form req))(''fiscal_code'' \<mapsto> v)"
  then obtain g' where g': "eval_columns (new_guest_columns (now E) f') = Inr g'"
    "map_of g' = (map_of g)(''fiscal_code'' \<mapsto> Text v)"
    using new_guest_row_any_text [of "now E" "form req" g f' v] by (elim conjE) auto
  have "guests (snd (new_guest E (req\<lparr>form := f'\<rparr>) w)) = guests w @ [(fresh_id w, g')]"
    if "db_check E g' = None"
    using a g'(1) that by (intro new_guest_stores) simp_all
  with g' show "\<exists>g'. eval_columns (new_guest_columns (now E) f') = Inr g'
         \<and> map_of g' = (map_of g)(''fiscal_code'' \<mapsto> Text v)
         \<and> (db_check E g' = None \<longrightarrow>
              guests (snd (new_guest E (req\<lparr>form := f'\<rparr>) w))
                = guests w @ [(fresh_id w, g')])"
    by (intro exI [of _ g'] conjI impI)
next
  assume a: "http_method req = ''POST'' \<and> map_of (guests w) guest_id = Some h0
       \<and> apply_updates (edit_guest_updates (form req)) h0 = Inr h
       \<and> map_of f' = (map_of (form req))(''fiscal_code'' \<mapsto> v)"
  then obtain h' where h': "apply_updates (edit_guest_updates f') h0 = Inr h'"
    "map_of h' = (map_of h)(''fiscal_code'' \<mapsto> Text v)"
    using edit_guest_row_any_text [of "form req" h0 h f' v] by (elim conjE) auto
  have "map_of (guests (snd (edit_guest E guest_id (req\<lparr>form := f'\<rparr>) w))) guest_id = Some h'"
    if "commit_rows E (h' # custom_field_rows guest_id f') = Inr ()"
    using a h'(1) that by (intro edit_guest_stores [where ?g0.0 = h0]) simp_all
  with h' show "\<exists>h'. apply_updates (edit_guest_updates f') h0 = Inr h'
         \<and> map_of h' = (map_of h)(''fiscal_code'' \<mapsto> Text v)
         \<and> (commit_rows E (h' # custom_field_rows guest_id f') = Inr () \<longrightarrow>
              map_of (guests (snd (edit_guest E guest_id (req\<lparr>form := f'\<rparr>) w))) guest_id
                = Some h')"
    by (intro exI [of _ h'] conjI impI)
qed

theorem fiscal_code_stored_as_entered_witness:
  "guests (snd (new_guest sample_env
        \<lparr>http_method = ''POST'', form = sample_form, json_body = JNull\<rparr>
        (sample_world\<lparr>guests := [(1, [(''fiscal_code'', Text ''RSSMRA80A15H501I'')])]\<rparr>)))
     \<noteq> [(1, [(''fiscal_code'', Text ''RSSMRA80A15H501I'')])]
   \<and> fst (edit_guest sample_env 1 \<lparr>http_method = ''POST'', form = sample_form, json_body = JNull\<rparr>
          (sample_world\<lparr>guests := [(1, [(''fiscal_code'', Text ''RSSMRA80A15H501I'')])]\<rparr>))
     = Inr (Redirect ''guest_detail'')
   \<and> (\<exists>g. map_of (guests (snd (edit_guest sample_env 1
          \<lparr>http_method = ''POST'', form = sample_form, json_body = JNull\<rparr>
          (sample_world\<lparr>guests := [(1, [(''fiscal_code'', Text ''RSSMRA80A15H501I'')])]\<rparr>)))) 1
        = Some g \<and> map_of g ''fiscal_code'' = Some (Text ''abc''))
   \<and> (\<exists>g. guests (snd (new_guest sample_env
          \<lparr>http_method = ''POST'', form = (''fiscal_code'', ''not a code, by far'') # sample_form,
            json_body = JNull\<rparr>
          (sample_world\<lparr>guests := [(1, [(''fiscal_code'', Text ''RSSMRA80A15H501I'')])]\<rparr>)))
        = [(1, [(''fiscal_code'', Text ''RSSMRA80A15H501I'')]), (2, g)]
        \<and> map_of g ''fiscal_code'' = Some (Text ''not a code, by far''))
   \<and> (\<exists>h. map_of (guests (snd (edit_guest sample_env 1
          \<lparr>http_method = ''POST'', form = (''fiscal_code'', ''not a code, by far'') # sample_form,
            json_body = JNull\<rparr>
          (sample_world\<lparr>guests := [(1, [(''fiscal_code'', Text ''RSSMRA80A15H501I'')])]\<rparr>)))) 1
        = Some h \<and> map_of h ''fiscal_code'' = Some (Text ''not a code, by far''))"
proof -
  let ?req = "\<lparr>http_method = ''POST'', form = sample_form, json_body = JNull\<rparr>"
  let ?h0 = "[(''fiscal_code'', Text ''RSSMRA80A15H501I'')]"
  let ?w = "sample_world\<lparr>guests := [(1, ?h0)]\<rparr>"
  let ?v = "''not a code, by far''"
  let ?f' = "(''fiscal_code'', ?v) # sample_form"
  let ?req' = "\<lparr>http_method = ''POST'', form = ?f', json_body = JNull\<rparr>"
  have "\<not> isl (eval_columns (new_guest_columns (now sample_env) (form ?req)))"
    by code_simp
  then obtain g where g: "eval_columns (new_guest_columns (now sample_env) (form ?req)) = Inr g"
    by (cases "eval_columns (new_guest_columns (now sample_env) (form ?req))") simp_all
  have "\<not> isl (apply_updates (edit_guest_updates (form ?req)) ?h0)"
    by code_simp
  then obtain h where h: "apply_updates (edit_guest_updates (form ?req)) ?h0 = Inr h"
    by (cases "apply_updates (edit_guest_updates (form ?req)) ?h0") simp_all
  have p: "http_method ?req = ''POST''" "map_of (guests ?w) 1 = Some ?h0"
    "map_of ?f' = (map_of (form ?req))(''fiscal_code'' \<mapsto> ?v)"
    by simp_all
  have d: "db_check sample_env r = None" for r
    by (simp add: sample_env_def)
  have k: "commit_rows sample_env rows = Inr ()" for rows
    by (simp add: commit_rows_def List.map_filter_def sample_env_def)
  have w: "guests ?w = [(1, ?h0)]" "[(1, ?h0)] @ [(fresh_id ?w, r)] = [(1, ?h0), (2, r)]" for r
    by (simp_all add: fresh_id_def)
  have e: "?req\<lparr>form := ?f'\<rparr> = ?req'"
    by simp
  have c: "map_of (form ?req) ''fiscal_code'' = Some x \<Longrightarrow> x = ''abc''" for x
    by (simp add: sample_form_def)
  have s: "guests (snd (new_guest sample_env ?req ?w)) = [(1, ?h0), (2, g)]"
    using new_guest_stores [OF p(1) g d, of ?w] by (simp only: w)
  have a: "guests (snd (new_guest sample_env ?req ?w)) \<noteq> guests ?w"
    by (simp only: s w) simp
  have b: "fst (edit_guest sample_env 1 ?req ?w) = Inr (Redirect ''guest_detail'')"
    using p(2) h k by (simp add: edit_guest_def)
  note t = fiscal_code_stored_as_entered [of sample_env ?req ?w 1 g ?f' ?v ?h0 h]
  note t1 = t [THEN conjunct1, THEN mp, OF a]
  note t2 = t [THEN conjunct2, THEN conjunct1, THEN mp, OF b]
  note t3 = t [THEN conjunct2, THEN conjunct2, THEN conjunct1, THEN mp,
    OF conjI [OF p(1) conjI [OF g p(3)]]]
  note t4 = t [THEN conjunct2, THEN conjunct2, THEN conjunct2, THEN mp,
    OF conjI [OF p(1) conjI [OF p(2) conjI [OF h p(3)]]]]
  from t2 obtain r x where r: "map_of (guests (snd (edit_guest sample_env 1 ?req ?w))) 1 = Some r"
    "map_of (form ?req) ''fiscal_code'' = Some x" "map_of r ''fiscal_code'' = Some (Text x)"
    by (elim exE conjE)
  from r(3) c [OF r(2)] have "map_of r ''fiscal_code'' = Some (Text ''abc'')"
    by simp
  with r(1) have one: "\<exists>g. map_of (guests (snd (edit_guest sample_env 1 ?req ?w))) 1 = Some g
      \<and> map_of g ''fiscal_code'' = Some (Text ''abc'')"
    by (intro exI [of _ r] conjI)
  from t3 obtain g' where g': "map_of g' = (map_of g)(''fiscal_code'' \<mapsto> Text ?v)"
    "db_check sample_env g' = None \<longrightarrow>
       guests (snd (new_guest sample_env (?req\<lparr>form := ?f'\<rparr>) ?w))
         = guests ?w @ [(fresh_id ?w, g')]"
    by (elim exE conjE)
  from g'(2) [THEN mp, OF d]
  have "guests (snd (new_guest sample_env ?req' ?w)) = [(1, ?h0), (2, g')]"
    by (simp only: e w)
  moreover from g'(1) have "map_of g' ''fiscal_code'' = Some (Text ?v)"
    by simp
  ultimately have two: "\<exists>g. guests (snd (new_guest sample_env ?req' ?w)) = [(1, ?h0), (2, g)]
        \<and> map_of g ''fiscal_code'' = Some (Text ?v)"
    by (intro exI [of _ g'] conjI)
  from t4 obtain h' where h': "map_of h' = (map_of h)(''fiscal_code'' \<mapsto> Text ?v)"
    "commit_rows sample_env (h' # custom_field_rows 1 ?f') = Inr () \<longrightarrow>
       map_of (guests (snd (edit_guest sample_env 1 (?req\<lparr>form := ?f'\<rparr>) ?w))) 1 = Some h'"
    by (elim exE conjE)
  from h'(2) [THEN mp, OF k]
  have "map_of (guests (snd (edit_guest sample_env 1 ?req' ?w))) 1 = Some h'"
    by (simp only: e)
  moreover from h'(1) have "map_of h' ''fiscal_code'' = Some (Text ?v)"
    by simp
  ultimately have three: "\<exists>h. map_of (guests (snd (edit_guest sample_env 1 ?req' ?w))) 1 = Some h
        \<and> map_of h ''fiscal_code'' = Some (Text ?v)"
    by (intro exI [of _ h'] conjI)
  from a [unfolded w] b one two three show ?thesis
    by (intro conjI)
qed

text \<open>
  Claim C2 as stated has the entered code checked before it is stored. A form whose
  \<^verbatim>\<open>fiscal_code\<close> is the three characters \<^verbatim>\<open>abc\<close>, which the validator
  rejects as an \<open>InvalidFormatError\<close> whatever the tables, is saved by
  \<^verbatim>\<open>new_guest\<close> with that text in the row.
\<close>

theorem fiscal_code_unchecked_counterexample:
  "fst (new_guest sample_env \<lparr>http_method = ''POST'', form = sample_form, json_body = JNull\<rparr>
          sample_world) = Inr (Redirect ''archive'')
   \<and> map (\<lambda>(i, g). map_of g ''fiscal_code'')
        (guests (snd (new_guest sample_env
           \<lparr>http_method = ''POST'', form = sample_form, json_body = JNull\<rparr> sample_world)))
      = [Some (Text ''abc'')]
   \<and> (\<forall>R. validate_fiscal_code R ''abc'' = Inl InvalidFormatError)"
proof -
  have "fst (new_guest sample_env \<lparr>http_method = ''POST'', form = sample_form, json_body = JNull\<rparr>
          sample_world) = Inr (Redirect ''archive'')"
    by code_simp
  moreover have "map (\<lambda>(i, g). map_of g ''fiscal_code'')
        (guests (snd (new_guest sample_env
           \<lparr>http_method = ''POST'', form = sample_form, json_body = JNull\<rparr> sample_world)))
      = [Some (Text ''abc'')]"
    by code_simp
  moreover have "\<forall>R. validate_fiscal_code R ''abc'' = Inl InvalidFormatError"
    by (simp add: validate_fiscal_code_def shape_valid_def)
  ultimately show ?thesis by simp
qed

section \<open>Properties of the fiscal code computation\<close>

text \<open>The shape of what each component produces.\<close>

lemma normalize_upper: "list_all is_upper (normalize R s)"
  by (simp add: normalize_def list_all_iff)

lemma consonant_vowel_code_eq:
  "consonant_vowel_code n = take 3 (consonants n @ vowels n @ ''XXX'')"
proof -
  let ?cs = "consonants n" and ?vs = "vowels n"
  have x: "''XXX'' = replicate 3 CHR ''X''" by (simp add: numeral_3_eq_3)
  consider "3 \<le> length ?cs" | "length ?cs < 3" "3 \<le> length ?cs + length ?vs"
    | "length ?cs + length ?vs < 3" by linarith
  then show ?thesis
  proof cases
    case 1
    then show ?thesis by (simp add: consonant_vowel_code_def Let_def)
  next
    case 2
    then show ?thesis by (simp add: consonant_vowel_code_def Let_def min_def)
  next
    case 3
    then show ?thesis
      unfolding x by (simp add: consonant_vowel_code_def Let_def min_def)
  qed
qed

lemma consonant_vowel_code_length: "length (consonant_vowel_code n) = 3"
  by (simp add: consonant_vowel_code_eq)

lemma consonant_vowel_code_upper:
  assumes "list_all is_upper n"
  shows "list_all is_upper (consonant_vowel_code n)"
proof -
  have "set (take 3 (consonants n @ vowels n @ ''XXX'')) \<subseteq> set n \<union> {CHR ''X''}"
    by (rule subset_trans [OF set_take_subset]) (auto simp: consonants_def vowels_def)
  moreover have "is_upper CHR ''X''" by (simp add: is_upper_def)
  ultimately show ?thesis
    using assms unfolding consonant_vowel_code_eq list_all_iff by blast
qed

lemma encode_surname_shape:
  "encode_surname R s = Inr c \<Longrightarrow> length c = 3 \<and> list_all is_upper c"
  using consonant_vowel_code_upper [OF normalize_upper, of R s]
  by (auto simp: encode_surname_def Let_def consonant_vowel_code_length split: if_splits)

lemma consonants_upper: "list_all is_upper n \<Longrightarrow> list_all is_upper (consonants n)"
  by (simp add: consonants_def list_all_iff)

lemma encode_given_name_shape:
  assumes "encode_given_name R s = Inr c"
  shows "length c = 3 \<and> list_all is_upper c"
proof -
  note up = consonants_upper [OF normalize_upper, of R s]
  note cv = consonant_vowel_code_upper [OF normalize_upper, of R s]
    consonant_vowel_code_length [of "normalize R s"]
  from assms up cv show ?thesis
    by (auto simp: encode_given_name_def Let_def split: if_splits list.splits)
qed

lemma digit_char_digit: "is_digit (digit_char n)"
proof -
  have "n mod 10 < length ''0123456789''" by simp
  then have "''0123456789'' ! (n mod 10) \<in> set ''0123456789''" by (rule nth_mem)
  then show ?thesis unfolding digit_char_def is_digit_def .
qed

lemma digit_val_nth: "k < 10 \<Longrightarrow> digit_val (''0123456789'' ! k) = k"
proof -
  assume "k < 10"
  then have "k < 5 \<or> (5 \<le> k \<and> k < 10)" by linarith
  then consider "k = 0" | "k = 1" | "k = 2" | "k = 3" | "k = 4" | "k = 5" | "k = 6"
    | "k = 7" | "k = 8" | "k = 9" by fastforce
  then show ?thesis by cases (simp_all add: digit_val_def)
qed

lemma digit_val_digit_char: "digit_val (digit_char n) = n mod 10"
  unfolding digit_char_def by (rule digit_val_nth) simp

lemma zero_pad2_eq:
  "n < 100 \<Longrightarrow> zero_pad2 n = [digit_char (n div 10), digit_char n]"
proof -
  assume n: "n < 100"
  have z: "digit_char 0 = CHR ''0''" by (simp add: digit_char_def)
  show ?thesis
  proof (cases "n < 10")
    case True
    then show ?thesis by (simp add: zero_pad2_def z)
  next
    case False
    with n have "n div 10 < 10" by simp
    with False show ?thesis by (simp add: zero_pad2_def)
  qed
qed

lemma zero_pad2_value: "n < 100 \<Longrightarrow> digits_value (zero_pad2 n) = n"
  by (simp add: zero_pad2_eq digits_value_def digit_val_digit_char)

lemma zero_pad2_shape: "n < 100 \<Longrightarrow> length (zero_pad2 n) = 2 \<and> list_all is_digit (zero_pad2 n)"
  by (simp add: zero_pad2_eq digit_char_digit)

lemma days_in_month_le: "days_in_month y m \<le> 31"
  by (simp add: days_in_month_def)

lemma valid_date_day: "valid_date d \<Longrightarrow> 1 \<le> day d \<and> day d \<le> 31"
  using days_in_month_le [of "year d" "month d"] by (simp add: valid_date_def)

lemma month_letter_mem:
  assumes "valid_date d"
  shows "month_letters ! (month d - 1) \<in> set month_letters"
proof -
  have "length month_letters = 12" by (simp add: month_letters_def)
  moreover from assms have "1 \<le> month d" "month d \<le> 12" by (simp_all add: valid_date_def)
  ultimately have "month d - 1 < length month_letters" by linarith
  then show ?thesis by (rule nth_mem)
qed

lemma encode_date_shape:
  assumes "encode_date today d sx = Inr (y, m, dd)"
  shows "length y = 2 \<and> list_all is_digit y \<and> m \<in> set month_letters
         \<and> length dd = 2 \<and> list_all is_digit dd"
proof -
  from assms have v: "valid_date d"
    and y: "y = zero_pad2 (year d mod 100)"
    and m: "m = month_letters ! (month d - 1)"
    and dd: "dd = zero_pad2 (if sx = Female then day d + 40 else day d)"
    by (auto simp: encode_date_def split: if_splits)
  from valid_date_day [OF v] have "(if sx = Female then day d + 40 else day d) < 100"
    by auto
  from zero_pad2_shape [OF this] zero_pad2_shape [of "year d mod 100"] month_letter_mem [OF v]
  show ?thesis unfolding y m dd by simp
qed

lemma lookup_mem: "lookup R nm f = Inr e \<Longrightarrow> e \<in> set (place_table R)"
  by (auto simp: lookup_def split: option.splits dest: find_SomeD)

lemma upper_alnum: "list_all is_upper s \<Longrightarrow> list_all is_alnum s"
  by (simp add: list_all_iff is_alnum_def)

lemma digit_alnum: "list_all is_digit s \<Longrightarrow> list_all is_alnum s"
  by (simp add: list_all_iff is_alnum_def)

lemma month_letter_alnum: "m \<in> set month_letters \<Longrightarrow> is_alnum m"
  by (auto simp: month_letters_def is_alnum_def is_upper_def)

lemma place_code_alnum:
  assumes "place_code_ok c"
  shows "length c = 4 \<and> list_all is_alnum c"
proof -
  from assms obtain a b where c: "c = a # b"
    by (cases c) (auto simp: place_code_ok_def)
  with assms have "is_upper a" "list_all is_digit b" "length c = 4"
    by (simp_all add: place_code_ok_def)
  then show ?thesis
    using digit_alnum [of b] by (simp add: c is_alnum_def)
qed

lemma compose_parts:
  assumes "compose R today p = Inr core"
  obtains sc gc y m d e where
    "encode_surname R (last_name p) = Inr sc"
    "encode_given_name R (first_name p) = Inr gc"
    "encode_date today (birth_date p) (sex p) = Inr (y, m, d)"
    "lookup R (birth_place p) (is_foreign_birth p) = Inr e"
    "core = sc @ gc @ y @ [m] @ d @ entry_code e"
  using assms
  by (auto simp: compose_def bind_exn_def split: sum.splits prod.splits)

lemma compose_shape:
  assumes "wf_ref R" and "compose R today p = Inr core"
  shows "length core = 15 \<and> list_all is_alnum core \<and> core ! 8 \<in> set month_letters"
proof -
  from assms(2) obtain sc gc y m d e where
    sc: "encode_surname R (last_name p) = Inr sc" and
    gc: "encode_given_name R (first_name p) = Inr gc" and
    dt: "encode_date today (birth_date p) (sex p) = Inr (y, m, d)" and
    e: "lookup R (birth_place p) (is_foreign_birth p) = Inr e" and
    core: "core = sc @ gc @ y @ [m] @ d @ entry_code e"
    by (rule compose_parts)
  from lookup_mem [OF e] assms(1) have "place_code_ok (entry_code e)"
    by (simp add: wf_ref_def list_all_iff)
  note pc = place_code_alnum [OF this]
  note s1 = encode_surname_shape [OF sc] and s2 = encode_given_name_shape [OF gc]
    and s3 = encode_date_shape [OF dt]
  have l: "length sc = 3" "length gc = 3" "length y = 2" "length d = 2"
    "length (entry_code e) = 4"
    using s1 s2 s3 pc by simp_all
  have a: "list_all is_alnum sc" "list_all is_alnum gc" "list_all is_alnum y" "is_alnum m"
    "list_all is_alnum d" "list_all is_alnum (entry_code e)"
    using s1 s2 s3 pc upper_alnum digit_alnum month_letter_alnum by simp_all
  have "length core = 15" using l by (simp add: core)
  moreover have "list_all is_alnum core" using a by (simp add: core)
  moreover have "core ! 8 = m" using l by (simp add: core nth_append)
  ultimately show ?thesis using s3 by simp
qed

lemma candidate_validates:
  assumes "length core = 15" "list_all is_alnum core" "core ! 8 \<in> set month_letters"
  shows "validate_fiscal_code R (core @ [checksum R core]) = Inr ()"
  using assms checksum_upper [of R core]
  by (simp add: validate_fiscal_code_def shape_valid_def nth_append is_alnum_def)

subsection \<open>The resolver\<close>

lemma substitute_digit_None: "substitute_digit R c = None \<Longrightarrow> digit_count c = 0"
  by (auto simp: substitute_digit_def Let_def digit_count_def
      split: option.splits dest: last_digit_pos_None)

lemma filter_length_mono:
  "(\<And>x. x \<in> set xs \<Longrightarrow> P x \<Longrightarrow> Q x) \<Longrightarrow> length (filter P xs) \<le> length (filter Q xs)"
  by (induction xs) auto

lemma core_positions: "[0..<15] = [0, 1, 2, 3, 4, 5, 6, 7, 8, 9, 10, 11, 12, 13, 14::nat]"
  by (simp add: upt_rec)

lemma layout_digit_count:
  assumes "code_layout c"
  shows "digit_count c \<le> 7"
proof -
  from assms have len: "length c = 16"
    and nd: "\<And>i. i \<in> set [0, 1, 2, 3, 4, 5, 8, 11] \<Longrightarrow> \<not> is_digit (c ! i)"
    by (auto simp: code_layout_def list_all_iff)
  have "take 15 c = take 15 (map ((!) c) [0..<length c])"
    by (simp only: map_nth)
  also have "\<dots> = map ((!) c) [0..<15]"
    unfolding take_map len by simp
  finally have "take 15 c = map ((!) c) [0..<15]" .
  then have "digit_count c = length (filter (\<lambda>i. is_digit (c ! i)) [0..<15])"
    by (simp add: digit_count_def filter_map comp_def)
  also have "\<dots> \<le> length (filter (\<lambda>i. i \<notin> set [0, 1, 2, 3, 4, 5, 8, 11]) [0..<15])"
    by (rule filter_length_mono) (use nd in blast)
  also have "\<dots> = 7" unfolding core_positions by simp
  finally show ?thesis .
qed

lemma disambiguate_result:
  "(\<exists>k code. k \<le> digit_count candidate \<and> after_substitutions R k candidate = Some code
      \<and> disambiguate R is_taken candidate = Inr code \<and> \<not> is_taken code)
   \<or> (disambiguate R is_taken candidate = Inl CodeSpaceExhaustedError
      \<and> (\<exists>code. after_substitutions R (digit_count candidate) candidate = Some code
            \<and> digit_count code = 0 \<and> is_taken code))"
proof (induction R is_taken candidate rule: disambiguate.induct)
  case (1 R is_taken candidate)
  show ?case
  proof (cases "is_taken candidate")
    case False
    then have "disambiguate R is_taken candidate = Inr candidate"
      by (simp add: disambiguate.simps)
    with False have "0 \<le> digit_count candidate \<and> after_substitutions R 0 candidate = Some candidate
      \<and> disambiguate R is_taken candidate = Inr candidate \<and> \<not> is_taken candidate" by simp
    then show ?thesis by blast
  next
    case True
    show ?thesis
    proof (cases "substitute_digit R candidate")
      case None
      with True have "disambiguate R is_taken candidate = Inl CodeSpaceExhaustedError"
        by (simp add: disambiguate.simps)
      moreover from substitute_digit_None [OF None]
      have "after_substitutions R (digit_count candidate) candidate = Some candidate"
        "digit_count candidate = 0" by simp_all
      ultimately show ?thesis using True by blast
    next
      case (Some n)
      from True Some have eq: "disambiguate R is_taken candidate = disambiguate R is_taken n"
        by (simp add: disambiguate.simps)
      from substitute_digit_count [OF Some] have dc: "digit_count candidate = Suc (digit_count n)"
        by simp
      have step: "after_substitutions R (Suc k) candidate = after_substitutions R k n" for k
        using Some by simp
      from "1.IH" [OF _ Some] True
      consider (free) k code where "k \<le> digit_count n" "after_substitutions R k n = Some code"
          "disambiguate R is_taken n = Inr code" "\<not> is_taken code"
        | (full) code where "disambiguate R is_taken n = Inl CodeSpaceExhaustedError"
          "after_substitutions R (digit_count n) n = Some code" "digit_count code = 0"
          "is_taken code"
        by blast
      then show ?thesis
      proof cases
        case free
        then have "Suc k \<le> digit_count candidate \<and>
          after_substitutions R (Suc k) candidate = Some code \<and>
          disambiguate R is_taken candidate = Inr code \<and> \<not> is_taken code"
          using dc eq step by simp
        then show ?thesis by blast
      next
        case full
        then show ?thesis using dc eq step by simp
      qed
    qed
  qed
qed

text \<open>
  Claim C7. The resolver is a total function: its recursion ends because every round
  takes one digit out of the core. For every candidate and every membership test it
  either returns a code that is not taken, reached after \<open>k\<close> rounds of substitution
  with \<open>k\<close> at most the number of digits of the core, or it reports
  \<open>CodeSpaceExhaustedError\<close>, and then every digit of the core has been substituted and
  the code is still taken. A candidate with the layout of a fiscal code has at most 7
  digits in its core.
\<close>

theorem disambiguate_terminates:
  "((\<exists>k code. k \<le> digit_count candidate \<and> after_substitutions R k candidate = Some code
        \<and> disambiguate R is_taken candidate = Inr code \<and> \<not> is_taken code)
    \<or> (disambiguate R is_taken candidate = Inl CodeSpaceExhaustedError
        \<and> (\<exists>code. after_substitutions R (digit_count candidate) candidate = Some code
              \<and> digit_count code = 0 \<and> is_taken code)))
   \<and> (code_layout candidate \<longrightarrow> digit_count candidate \<le> 7)"
  using disambiguate_result [of candidate R is_taken] layout_digit_count [of candidate]
  by blast

theorem disambiguate_terminates_witness:
  "code_layout ''RSSMRA80A15H501I'' \<and> digit_count ''RSSMRA80A15H501I'' \<le> 7
   \<and> disambiguate sample_ref (\<lambda>c. c = ''RSSMRA80A15H501I'') ''RSSMRA80A15H501I''
       = Inr ''RSSMRA80A15H50MA''"
proof -
  have a: "code_layout ''RSSMRA80A15H501I''"
    by (simp add: code_layout_def is_digit_def)
  have b: "disambiguate sample_ref (\<lambda>c. c = ''RSSMRA80A15H501I'') ''RSSMRA80A15H501I''
       = Inr ''RSSMRA80A15H50MA''"
    by code_simp
  from disambiguate_terminates [of "''RSSMRA80A15H501I''" sample_ref
      "\<lambda>c. c = ''RSSMRA80A15H501I''"] a b
  show ?thesis by simp
qed

subsection \<open>The validator\<close>

text \<open>
  Claim C8. A text whose length is not 16, or which holds a character outside A to Z and
  0 to 9 (a lowercase letter, say), is an \<open>InvalidFormatError\<close>. The result is
  \<open>ChecksumMismatchError\<close> exactly when the shape is valid and the 16th character is not
  the checksum recomputed from the first 15.
\<close>

theorem malformed_is_invalid_format:
  "((length c \<noteq> 16 \<or> \<not> list_all is_alnum c) \<longrightarrow>
       validate_fiscal_code R c = Inl InvalidFormatError)
   \<and> (validate_fiscal_code R c = Inl ChecksumMismatchError \<longleftrightarrow>
       shape_valid c \<and> c ! 15 \<noteq> checksum R (take 15 c))"
  by (auto simp: validate_fiscal_code_def shape_valid_def)

theorem malformed_is_invalid_format_witness:
  "validate_fiscal_code sample_ref ''RSSMRA80A01H501'' = Inl InvalidFormatError
   \<and> validate_fiscal_code sample_ref ''RSSMRA80A01H501UU'' = Inl InvalidFormatError
   \<and> validate_fiscal_code sample_ref ''rssmra80a01h501u'' = Inl InvalidFormatError
   \<and> validate_fiscal_code sample_ref ''RSSMRA80A01H501X'' = Inl ChecksumMismatchError"
proof -
  have lower: "\<not> list_all is_alnum ''rssmra80a01h501u''"
    by (simp add: is_alnum_def is_upper_def is_digit_def)
  have shape: "shape_valid ''RSSMRA80A01H501X''"
    by (simp add: shape_valid_def is_alnum_def is_upper_def is_digit_def month_letters_def)
  have chk: "checksum sample_ref (take 15 ''RSSMRA80A01H501X'') = CHR ''U''"
    by code_simp
  from malformed_is_invalid_format [of "''RSSMRA80A01H501''" sample_ref]
    malformed_is_invalid_format [of "''RSSMRA80A01H501UU''" sample_ref]
    malformed_is_invalid_format [of "''rssmra80a01h501u''" sample_ref]
    malformed_is_invalid_format [of "''RSSMRA80A01H501X''" sample_ref]
    lower shape chk
  show ?thesis by simp
qed

subsection \<open>The name encoder\<close>







subsection \<open>The day field\<close>

lemma encode_date_sex:
  assumes "encode_date today d sx = Inr (y, m, dd)"
  shows "valid_date d
    \<and> encode_date today d Male = Inr (y, m, zero_pad2 (day d))
    \<and> encode_date today d Female = Inr (y, m, zero_pad2 (day d + 40))"
  using assms by (auto simp: encode_date_def split: if_splits)

lemma compose_sex:
  assumes "compose R today p = Inr core"
  obtains pre pc where "length pre = 9" "valid_date (birth_date p)"
    "compose R today (p\<lparr>sex := Male\<rparr>) = Inr (pre @ zero_pad2 (day (birth_date p)) @ pc)"
    "compose R today (p\<lparr>sex := Female\<rparr>)
       = Inr (pre @ zero_pad2 (day (birth_date p) + 40) @ pc)"
proof -
  from assms obtain sc gc y m d e where
    sc: "encode_surname R (last_name p) = Inr sc" and
    gc: "encode_given_name R (first_name p) = Inr gc" and
    dt: "encode_date today (birth_date p) (sex p) = Inr (y, m, d)" and
    e: "lookup R (birth_place p) (is_foreign_birth p) = Inr e"
    by (rule compose_parts)
  note s1 = encode_surname_shape [OF sc] and s2 = encode_given_name_shape [OF gc]
    and s3 = encode_date_shape [OF dt] and sx = encode_date_sex [OF dt]
  let ?pre = "sc @ gc @ y @ [m]"
  have "length ?pre = 9" using s1 s2 s3 by simp
  moreover have "valid_date (birth_date p)" using sx by simp
  moreover have "compose R today (p\<lparr>sex := Male\<rparr>)
      = Inr (?pre @ zero_pad2 (day (birth_date p)) @ entry_code e)"
    using sc gc e sx by (simp add: compose_def bind_exn_def)
  moreover have "compose R today (p\<lparr>sex := Female\<rparr>)
      = Inr (?pre @ zero_pad2 (day (birth_date p) + 40) @ entry_code e)"
    using sc gc e sx by (simp add: compose_def bind_exn_def)
  ultimately show ?thesis by (rule that)
qed

lemma compute_no_hook:
  "compute_fiscal_code R today None surname given sx born place foreign = Inr c \<longleftrightarrow>
   (\<exists>core. compose R today \<lparr>last_name = surname, first_name = given, sex = sx,
        birth_date = born, birth_place = place, is_foreign_birth = foreign\<rparr> = Inr core
      \<and> c = core @ [checksum R core])"
  by (auto simp: compute_fiscal_code_def bind_exn_def Let_def split: sum.splits)

text \<open>
  Claim C6. When the computation succeeds for a male, it succeeds for the same person as
  a female. Characters 10 and 11 of the male's code are the day of the month padded to
  two digits, those of the female's code are the day plus 40, so their numeric values
  differ by exactly 40; characters 1 to 9 and the place code (the core from character
  12 on) are the same in both codes.
\<close>

theorem female_day_shift:
  assumes "compute_fiscal_code R today None surname given Male born place foreign = Inr cm"
  shows "\<exists>cf. compute_fiscal_code R today None surname given Female born place foreign = Inr cf
    \<and> take 2 (drop 9 cm) = zero_pad2 (day born) \<and> length (zero_pad2 (day born)) = 2
    \<and> take 2 (drop 9 cf) = zero_pad2 (day born + 40)
    \<and> digits_value (take 2 (drop 9 cf)) = digits_value (take 2 (drop 9 cm)) + 40
    \<and> take 9 cf = take 9 cm \<and> drop 11 (butlast cf) = drop 11 (butlast cm)"
proof -
  let ?p = "\<lparr>last_name = surname, first_name = given, sex = Male,
        birth_date = born, birth_place = place, is_foreign_birth = foreign\<rparr>"
  let ?q = "\<lparr>last_name = surname, first_name = given, sex = Female,
        birth_date = born, birth_place = place, is_foreign_birth = foreign\<rparr>"
  from assms obtain core where core: "compose R today ?p = Inr core"
    and cm: "cm = core @ [checksum R core]"
    unfolding compute_no_hook by blast
  from core obtain pre pc where pre: "length pre = 9" and v: "valid_date born"
    and m: "compose R today (?p\<lparr>sex := Male\<rparr>) = Inr (pre @ zero_pad2 (day born) @ pc)"
    and f: "compose R today (?p\<lparr>sex := Female\<rparr>) = Inr (pre @ zero_pad2 (day born + 40) @ pc)"
    by (rule compose_sex) simp_all
  from m core have coreM: "core = pre @ zero_pad2 (day born) @ pc" by simp
  define coreF where "coreF = pre @ zero_pad2 (day born + 40) @ pc"
  define cf where "cf = coreF @ [checksum R coreF]"
  from f have "compute_fiscal_code R today None surname given Female born place foreign = Inr cf"
    unfolding compute_no_hook by (simp add: cf_def coreF_def)
  moreover
  from valid_date_day [OF v] have d: "day born < 100" "day born + 40 < 100" by simp_all
  note zm = zero_pad2_shape [OF d(1)] and zf = zero_pad2_shape [OF d(2)]
  have "take 2 (drop 9 cm) = zero_pad2 (day born)"
    using pre zm by (simp add: cm coreM)
  moreover have tf: "take 2 (drop 9 cf) = zero_pad2 (day born + 40)"
    using pre zf by (simp add: cf_def coreF_def)
  moreover have "digits_value (take 2 (drop 9 cf)) = digits_value (take 2 (drop 9 cm)) + 40"
    using pre zm zf by (simp add: cm coreM cf_def coreF_def zero_pad2_value [OF d(1)] zero_pad2_value [OF d(2)])
  moreover have "take 9 cf = take 9 cm"
    using pre by (simp add: cm coreM cf_def coreF_def)
  moreover have "drop 11 (butlast cf) = drop 11 (butlast cm)"
    using pre zm zf by (simp add: cm coreM cf_def coreF_def butlast_append)
  ultimately show ?thesis using zm by blast
qed

theorem female_day_shift_witness:
  "compute_fiscal_code sample_ref \<lparr>year = 2024, month = 6, day = 1\<rparr> None ''Rossi'' ''Mario'' Male
      \<lparr>year = 1980, month = 1, day = 15\<rparr> ''Roma'' False = Inr ''RSSMRA80A15H501I''
   \<and> compute_fiscal_code sample_ref \<lparr>year = 2024, month = 6, day = 1\<rparr> None ''Rossi'' ''Mario'' Female
      \<lparr>year = 1980, month = 1, day = 15\<rparr> ''Roma'' False = Inr ''RSSMRA80A55H501M''
   \<and> digits_value ''55'' = digits_value ''15'' + 40"
proof -
  have m: "compute_fiscal_code sample_ref \<lparr>year = 2024, month = 6, day = 1\<rparr> None ''Rossi'' ''Mario'' Male
      \<lparr>year = 1980, month = 1, day = 15\<rparr> ''Roma'' False = Inr ''RSSMRA80A15H501I''"
    by code_simp
  have f: "compute_fiscal_code sample_ref \<lparr>year = 2024, month = 6, day = 1\<rparr> None ''Rossi'' ''Mario'' Female
      \<lparr>year = 1980, month = 1, day = 15\<rparr> ''Roma'' False = Inr ''RSSMRA80A55H501M''"
    by code_simp
  from female_day_shift [OF m] f
  have "digits_value (take 2 (drop 9 ''RSSMRA80A55H501M''))
      = digits_value (take 2 (drop 9 ''RSSMRA80A15H501I'')) + 40"
    by auto
  then show ?thesis using m f by simp
qed

subsection \<open>Round trip\<close>

lemma validate_ok_iff:
  "validate_fiscal_code R c = Inr () \<longleftrightarrow> shape_valid c \<and> c ! 15 = checksum R (take 15 c)"
  by (simp add: validate_fiscal_code_def)

lemma omocodia_upper: "is_digit c \<Longrightarrow> is_upper (omocodia c)"
  by (auto simp: is_digit_def omocodia_def is_upper_def)

lemma month_letter_not_digit: "m \<in> set month_letters \<Longrightarrow> \<not> is_digit m"
  by (auto simp: month_letters_def is_digit_def)

lemma list_all_update: "list_all P xs \<Longrightarrow> P y \<Longrightarrow> list_all P (xs[i := y])"
  unfolding list_all_iff using set_update_subset_insert [of xs i y] by auto

lemma substitute_digit_valid:
  assumes ok: "validate_fiscal_code R c = Inr ()" and sub: "substitute_digit R c = Some n"
  shows "validate_fiscal_code R n = Inr ()"
proof -
  define core where "core = take 15 c"
  from ok have len: "length c = 16" and al: "list_all is_alnum c"
    and mo: "c ! 8 \<in> set month_letters"
    by (simp_all add: validate_ok_iff shape_valid_def)
  from sub obtain i where pos: "last_digit_pos core = Some i"
    and n: "n = core[i := omocodia (core ! i)] @ [checksum R (core[i := omocodia (core ! i)])]"
    by (auto simp: substitute_digit_def Let_def core_def split: option.splits)
  let ?core' = "core[i := omocodia (core ! i)]"
  from last_digit_pos_Some [OF pos] have i: "i < length core" "is_digit (core ! i)" by auto
  have lc: "length core = 15" using len by (simp add: core_def)
  have c8: "core ! 8 = c ! 8" by (simp add: core_def)
  with mo i month_letter_not_digit have "i \<noteq> 8" by auto
  then have n8: "n ! 8 = c ! 8" using lc c8 by (simp add: n nth_append)
  have "list_all is_alnum core"
    using al unfolding core_def list_all_iff by (auto dest: in_set_takeD)
  then have "list_all is_alnum ?core'"
    using omocodia_upper [OF i(2)] by (intro list_all_update) (simp_all add: is_alnum_def)
  then have an: "list_all is_alnum n"
    using checksum_upper [of R ?core'] by (simp add: n is_alnum_def)
  have ln: "length n = 16" using lc by (simp add: n)
  have tk: "take 15 n = ?core'" using lc by (simp add: n)
  have "n ! 15 = checksum R ?core'" using lc by (simp add: n nth_append)
  with ln an n8 mo tk show ?thesis by (simp add: validate_ok_iff shape_valid_def)
qed

lemma disambiguate_valid:
  "validate_fiscal_code R c = Inr () \<Longrightarrow> disambiguate R t c = Inr c' \<Longrightarrow>
   validate_fiscal_code R c' = Inr () \<and> \<not> t c'"
proof (induction R t c rule: disambiguate.induct)
  case (1 R is_taken candidate)
  show ?case
  proof (cases "is_taken candidate")
    case False
    with "1.prems" show ?thesis by (simp add: disambiguate.simps)
  next
    case True
    show ?thesis
    proof (cases "substitute_digit R candidate")
      case None
      with True "1.prems" show ?thesis by (simp add: disambiguate.simps)
    next
      case (Some n)
      with True "1.prems" have "disambiguate R is_taken n = Inr c'"
        by (simp add: disambiguate.simps)
      with "1.IH" [OF _ Some substitute_digit_valid [OF "1.prems"(1) Some]] True
      show ?thesis by simp
    qed
  qed
qed

lemma disambiguate_error:
  "disambiguate R t c = Inl err \<Longrightarrow> err = CodeSpaceExhaustedError"
  using disambiguate_result [of c R t] by auto

lemma encode_surname_ok: "normalize R s \<noteq> [] \<Longrightarrow> \<exists>c. encode_surname R s = Inr c"
  by (simp add: encode_surname_def Let_def)

lemma encode_given_name_ok: "normalize R s \<noteq> [] \<Longrightarrow> \<exists>c. encode_given_name R s = Inr c"
  by (auto simp: encode_given_name_def Let_def split: list.splits)

lemma compose_succeeds:
  assumes "normalize R (last_name p) \<noteq> []" "normalize R (first_name p) \<noteq> []"
    "valid_date (birth_date p)" "\<not> date_after (birth_date p) today"
    "lookup R (birth_place p) (is_foreign_birth p) = Inr e"
  shows "\<exists>core. compose R today p = Inr core"
proof -
  from encode_surname_ok [OF assms(1)] obtain sc where
    "encode_surname R (last_name p) = Inr sc" ..
  moreover from encode_given_name_ok [OF assms(2)] obtain gc where
    "encode_given_name R (first_name p) = Inr gc" ..
  moreover from assms(3,4) obtain y m d where
    "encode_date today (birth_date p) (sex p) = Inr (y, m, d)"
    by (simp add: encode_date_def)
  ultimately show ?thesis using assms(5)
    by (simp add: compose_def bind_exn_def)
qed

text \<open>
  Claim C1, amended. For a person whose surname and given name each keep at least one
  letter after normalization, whose birth date is a Gregorian date not later than the
  current day and whose birth place is in the table (of codes made of one uppercase
  letter and three digits): without the membership test the computation produces 16
  characters of A to Z and 0 to 9 on which the validator reports Ok; with the test it
  produces such a code that is also not taken, or fails with
  \<open>CodeSpaceExhaustedError\<close>.
\<close>

theorem round_trip:
  assumes "wf_ref R" and "normalize R surname \<noteq> []" and "normalize R given \<noteq> []"
    and "valid_date born" and "\<not> date_after born today"
    and "lookup R place foreign = Inr e"
  shows "case compute_fiscal_code R today hook surname given sx born place foreign of
           Inr c \<Rightarrow> length c = 16 \<and> list_all is_alnum c
                    \<and> validate_fiscal_code R c = Inr ()
                    \<and> (\<forall>is_taken. hook = Some is_taken \<longrightarrow> \<not> is_taken c)
         | Inl err \<Rightarrow> hook \<noteq> None \<and> err = CodeSpaceExhaustedError"
proof -
  let ?p = "\<lparr>last_name = surname, first_name = given, sex = sx,
        birth_date = born, birth_place = place, is_foreign_birth = foreign\<rparr>"
  from compose_succeeds [of R ?p today e] assms obtain core where
    core: "compose R today ?p = Inr core" by auto
  from compose_shape [OF assms(1) core]
  have ok: "validate_fiscal_code R (core @ [checksum R core]) = Inr ()"
    by (intro candidate_validates) simp_all
  have shape: "length c = 16 \<and> list_all is_alnum c" if "validate_fiscal_code R c = Inr ()" for c
    using that by (simp add: validate_ok_iff shape_valid_def)
  show ?thesis
  proof (cases hook)
    case None
    with core ok shape [OF ok] show ?thesis
      by (simp add: compute_fiscal_code_def bind_exn_def)
  next
    case (Some t)
    with core have eq: "compute_fiscal_code R today hook surname given sx born place foreign
        = disambiguate R t (core @ [checksum R core])"
      by (simp add: compute_fiscal_code_def bind_exn_def)
    show ?thesis
    proof (cases "disambiguate R t (core @ [checksum R core])")
      case (Inl err)
      with eq Some disambiguate_error [OF Inl] show ?thesis by simp
    next
      case (Inr c)
      from disambiguate_valid [OF ok Inr] shape [of c] eq Inr Some show ?thesis by simp
    qed
  qed
qed

theorem round_trip_witness:
  "compute_fiscal_code sample_ref \<lparr>year = 2024, month = 6, day = 1\<rparr> None ''Bianchi'' ''Anna''
      Female \<lparr>year = 1992, month = 8, day = 31\<rparr> ''francia'' True = Inr ''BNCNNA92M71Z110W''
   \<and> length ''BNCNNA92M71Z110W'' = 16
   \<and> validate_fiscal_code sample_ref ''BNCNNA92M71Z110W'' = Inr ()"
proof -
  have wf: "wf_ref sample_ref"
    by (simp add: wf_ref_def sample_ref_def place_code_ok_def is_upper_def is_digit_def)
  have n1: "normalize sample_ref ''Bianchi'' \<noteq> []" by code_simp
  have n2: "normalize sample_ref ''Anna'' \<noteq> []" by code_simp
  have v: "valid_date \<lparr>year = 1992, month = 8, day = 31\<rparr>"
    by (simp add: valid_date_def days_in_month_def)
  have na: "\<not> date_after \<lparr>year = 1992, month = 8, day = 31\<rparr> \<lparr>year = 2024, month = 6, day = 1\<rparr>"
    by (simp add: date_after_def)
  have lk: "lookup sample_ref ''francia'' True
      = Inr \<lparr>entry_name = ''Francia'', entry_code = ''Z110'', entry_kind = ForeignCountry\<rparr>"
    by code_simp
  have c: "compute_fiscal_code sample_ref \<lparr>year = 2024, month = 6, day = 1\<rparr> None ''Bianchi''
      ''Anna'' Female \<lparr>year = 1992, month = 8, day = 31\<rparr> ''francia'' True
      = Inr ''BNCNNA92M71Z110W''"
    by code_simp
  from round_trip [OF wf n1 n2 v na lk, of None Female] c
  show ?thesis by simp
qed

text \<open>
  Claim C1 as stated fails in three ways. A surname that is not empty but holds no
  letter is an \<open>EmptyNameError\<close>; a Gregorian birth date after the current day is an
  \<open>InvalidDateError\<close>; and with a membership test under which every code is taken the
  result is \<open>CodeSpaceExhaustedError\<close>.
\<close>

theorem round_trip_counterexample:
  "''-'' \<noteq> [] \<and> valid_date \<lparr>year = 1980, month = 1, day = 15\<rparr>
   \<and> lookup sample_ref ''Roma'' False
       = Inr \<lparr>entry_name = ''Roma'', entry_code = ''H501'', entry_kind = Municipality\<rparr>
   \<and> compute_fiscal_code sample_ref \<lparr>year = 2024, month = 6, day = 1\<rparr> None ''-'' ''Mario'' Male
       \<lparr>year = 1980, month = 1, day = 15\<rparr> ''Roma'' False = Inl EmptyNameError
   \<and> valid_date \<lparr>year = 2024, month = 6, day = 2\<rparr>
   \<and> compute_fiscal_code sample_ref \<lparr>year = 2024, month = 6, day = 1\<rparr> None ''Rossi'' ''Mario''
       Male \<lparr>year = 2024, month = 6, day = 2\<rparr> ''Roma'' False = Inl InvalidDateError
   \<and> compute_fiscal_code sample_ref \<lparr>year = 2024, month = 6, day = 1\<rparr> (Some (\<lambda>c. True))
       ''Rossi'' ''Mario'' Male \<lparr>year = 1980, month = 1, day = 15\<rparr> ''Roma'' False
       = Inl CodeSpaceExhaustedError"
proof -
  have "valid_date \<lparr>year = 1980, month = 1, day = 15\<rparr>"
    "valid_date \<lparr>year = 2024, month = 6, day = 2\<rparr>"
    by (simp_all add: valid_date_def days_in_month_def)
  moreover have "lookup sample_ref ''Roma'' False
       = Inr \<lparr>entry_name = ''Roma'', entry_code = ''H501'', entry_kind = Municipality\<rparr>"
    by code_simp
  moreover have "compute_fiscal_code sample_ref \<lparr>year = 2024, month = 6, day = 1\<rparr> None ''-''
       ''Mario'' Male \<lparr>year = 1980, month = 1, day = 15\<rparr> ''Roma'' False = Inl EmptyNameError"
    by code_simp
  moreover have "compute_fiscal_code sample_ref \<lparr>year = 2024, month = 6, day = 1\<rparr> None ''Rossi''
       ''Mario'' Male \<lparr>year = 2024, month = 6, day = 2\<rparr> ''Roma'' False = Inl InvalidDateError"
    by code_simp
  moreover have "compute_fiscal_code sample_ref \<lparr>year = 2024, month = 6, day = 1\<rparr>
       (Some (\<lambda>c. True)) ''Rossi'' ''Mario'' Male \<lparr>year = 1980, month = 1, day = 15\<rparr> ''Roma''
       False = Inl CodeSpaceExhaustedError"
    by code_simp
  ultimately show ?thesis by simp
qed

end
